theory Spec2Isabelle
  imports Main "HOL-Library.Word"
begin

unbundle bit_operations_syntax

section \<open>Wire format\<close>

text \<open>
  The statsd sinks of \<^verbatim>\<open>source/common/stats/statsd.{h,cc}\<close>. Strings are byte lists,
  \<^verbatim>\<open>uint64_t\<close> values are \<open>64 word\<close>, sizes and offsets are \<open>nat\<close> with the 64-bit
  wrap-around written out where the source subtracts or adds them.
\<close>

definition digit_char :: "nat \<Rightarrow> char" where
  "digit_char d = ''0123456789'' ! d"

text \<open>Decimal digits of a natural number, most significant first, no leading zero.\<close>

fun dec :: "nat \<Rightarrow> string" where
  "dec n = (if n < 10 then [digit_char n] else dec (n div 10) @ [digit_char (n mod 10)])"

declare dec.simps [simp del]

text \<open>\<^verbatim>\<open>fmt::format("{}", v)\<close> for an unsigned 64-bit and for a signed 64-bit argument.\<close>

definition fmt_u64 :: "64 word \<Rightarrow> string" where
  "fmt_u64 v = dec (unat v)"

definition fmt_i64 :: "int \<Rightarrow> string" where
  "fmt_i64 i = (if i < 0 then CHR ''-'' # dec (nat (- i)) else dec (nat i))"

text \<open>
  \<^verbatim>\<open>std::chrono::milliseconds(value)\<close> for a \<^verbatim>\<open>uint64_t\<close>: the count is a signed 64-bit
  integer, so the conversion reads the same 64 bits as two's complement.
\<close>

definition milliseconds :: "64 word \<Rightarrow> int" where
  "milliseconds v = sint v"

section \<open>UDP sink\<close>

text \<open>
  \<open>sent\<close> lists the payloads given to \<^verbatim>\<open>::send(fd_, message.c_str(), message.size(),
  MSG_DONTWAIT)\<close>, one entry per call (one datagram each); its return value is ignored
  by the source.
\<close>

record writer =
  fd :: int
  sent :: "string list"

definition send :: "string \<Rightarrow> writer \<Rightarrow> writer" where
  "send message w = w\<lparr>sent := sent w @ [message]\<rparr>"

definition writeCounter :: "string \<Rightarrow> 64 word \<Rightarrow> writer \<Rightarrow> writer" where
  "writeCounter name increment w =
     send (''envoy.'' @ name @ '':'' @ fmt_u64 increment @ ''|c'') w"

definition writeGauge :: "string \<Rightarrow> 64 word \<Rightarrow> writer \<Rightarrow> writer" where
  "writeGauge name v w =
     send (''envoy.'' @ name @ '':'' @ fmt_u64 v @ ''|g'') w"

definition writeTimer :: "string \<Rightarrow> int \<Rightarrow> writer \<Rightarrow> writer" where
  "writeTimer name ms w =
     send (''envoy.'' @ name @ '':'' @ fmt_i64 ms @ ''|ms'') w"

text \<open>\<^verbatim>\<open>UdpStatsdSink\<close>: every call goes to the calling thread's \<^verbatim>\<open>Writer\<close>.\<close>

definition Udp_beginFlush :: "writer \<Rightarrow> writer" where
  "Udp_beginFlush w = w"

definition Udp_endFlush :: "writer \<Rightarrow> writer" where
  "Udp_endFlush w = w"

definition Udp_flushCounter :: "string \<Rightarrow> 64 word \<Rightarrow> writer \<Rightarrow> writer" where
  "Udp_flushCounter name delta w = writeCounter name delta w"

definition Udp_flushGauge :: "string \<Rightarrow> 64 word \<Rightarrow> writer \<Rightarrow> writer" where
  "Udp_flushGauge name v w = writeGauge name v w"

definition Udp_onTimespanComplete :: "string \<Rightarrow> int \<Rightarrow> writer \<Rightarrow> writer" where
  "Udp_onTimespanComplete name ms w = writeTimer name ms w"

definition Udp_onHistogramComplete :: "string \<Rightarrow> 64 word \<Rightarrow> writer \<Rightarrow> writer" where
  "Udp_onHistogramComplete name v w = Udp_onTimespanComplete name (milliseconds v) w"

section \<open>TCP sink\<close>

subsection \<open>Errors, memory and the collaborators\<close>

text \<open>
  A run of the C++ either returns or stops: on a failed \<^verbatim>\<open>ASSERT\<close> (debug builds only),
  on a write outside the reserved slice, or on a use of the null slice pointer. The last
  two are undefined behaviour in the source; the model stops there.
\<close>

datatype error = AssertionFailed | OutOfBounds | NullPointer

definition bindE :: "error + 'a \<Rightarrow> ('a \<Rightarrow> error + 'b) \<Rightarrow> error + 'b" where
  "bindE m f = (case m of Inl e \<Rightarrow> Inl e | Inr x \<Rightarrow> f x)"

text \<open>
  \<^verbatim>\<open>ASSERT(c)\<close> aborts in a debug build and is compiled out otherwise; the macro is
  declared outside these files, so the build kind is the parameter \<open>dbg\<close>.
\<close>

definition ASSERT :: "bool \<Rightarrow> bool \<Rightarrow> error + unit" where
  "ASSERT dbg c = (if dbg \<and> \<not> c then Inl AssertionFailed else Inr ())"

definition u64 :: "nat \<Rightarrow> nat" where
  "u64 n = n mod 2 ^ 64"

text \<open>Unsigned 64-bit subtraction of two values below \<open>2 ^ 64\<close>.\<close>

definition sub_u64 :: "nat \<Rightarrow> nat \<Rightarrow> nat" where
  "sub_u64 a b = (a + 2 ^ 64 - b) mod 2 ^ 64"

definition store :: "char list \<Rightarrow> nat \<Rightarrow> char list \<Rightarrow> char list" where
  "store m off bytes = take off m @ bytes @ drop (off + length bytes) m"

text \<open>\<^verbatim>\<open>memcpy(dst, src, n)\<close> into the region \<open>m\<close> at offset \<open>dst\<close>.\<close>

definition memcpy :: "char list \<Rightarrow> nat \<Rightarrow> char list \<Rightarrow> nat \<Rightarrow> error + char list" where
  "memcpy m dst src n =
     (if dst + n \<le> length m then Inr (store m dst (take n src)) else Inl OutOfBounds)"

text \<open>\<^verbatim>\<open>*p = c\<close> at offset \<open>p\<close> of the region \<open>m\<close>.\<close>

definition poke :: "char list \<Rightarrow> nat \<Rightarrow> char \<Rightarrow> error + char list" where
  "poke m p c = (if p < length m then Inr (m[p := c]) else Inl OutOfBounds)"

text \<open>
  Modelled from the spec: \<^verbatim>\<open>StringUtil::itoa(out, buffer_size, i)\<close> is declared in
  \<^verbatim>\<open>common/common/utility.h\<close>, which is not among the sources. The value is encoded as
  ``an unsigned decimal integer''; the call names a region of \<open>buffer_size\<close> bytes at
  \<open>out\<close> that the callee may use, so the whole region has to lie inside the slice. The
  result is the number of digits written.
\<close>

definition itoa :: "char list \<Rightarrow> nat \<Rightarrow> nat \<Rightarrow> 64 word \<Rightarrow> error + (char list \<times> nat)" where
  "itoa m out buffer_size i =
     (if out + buffer_size \<le> length m
      then Inr (store m out (dec (unat i)), length (dec (unat i)))
      else Inl OutOfBounds)"

text \<open>\<^verbatim>\<open>Buffer::RawSlice\<close>: \<open>mem\<close> holds the bytes of the region \<^verbatim>\<open>mem_\<close> points to.\<close>

record raw_slice =
  mem :: "char list"
  len :: nat

text \<open>
  Modelled from the spec: \<^verbatim>\<open>Buffer::OwnedImpl\<close> (\<^verbatim>\<open>common/buffer/buffer_impl.h\<close>) is not
  among the sources. It offers ``reserve contiguous region of size N'', ``commit
  K \<le> N bytes actually used'' and ``read full committed contents as a byte sequence''; a
  buffer is the list of its committed bytes, \<open>reserve\<close> yields one fresh slice of the
  requested size, \<open>commit\<close> appends the first \<open>len\<close> bytes of the slice, \<open>drain\<close> removes
  bytes from the front.
\<close>

definition reserve :: "nat \<Rightarrow> nat \<times> raw_slice" where
  "reserve n = (1, \<lparr>mem = replicate n (CHR 0x00), len = n\<rparr>)"

definition commit :: "raw_slice \<Rightarrow> char list \<Rightarrow> char list" where
  "commit sl b = b @ take (len sl) (mem sl)"

definition drain :: "nat \<Rightarrow> char list \<Rightarrow> char list" where
  "drain n b = drop n b"

text \<open>
  Calls made on the collaborators, in order: the cluster manager, the connection (named by
  the number the cluster manager gave it) and the dispatcher.
\<close>

datatype close_type = FlushWrite | NoFlush

datatype call =
    TcpConnForCluster
  | AddConnectionCallbacks nat
  | SetBufferStats nat
  | Connect nat
  | ConnWrite nat string
  | ConnClose nat close_type
  | DeferredDelete "nat option"

text \<open>
  The per-thread \<^verbatim>\<open>TlsSink\<close> with the state of its parent and of the collaborators:
  \<open>connection\<close>, \<open>buffer\<close>, \<open>current_buffer_slice\<close> and \<open>current_slice_mem\<close> are the members
  of the source (\<open>current_slice_mem\<close> is the offset of the pointer from \<^verbatim>\<open>mem_\<close>, \<open>None\<close>
  for \<^verbatim>\<open>nullptr\<close>); \<open>upstream_cx_tx_bytes_buffered\<close> and \<open>cx_overflow_stat\<close> are the two
  stats read and incremented; \<open>cluster_has_connection\<close> says whether
  \<^verbatim>\<open>tcpConnForCluster\<close> returns a connection, \<open>connections_made\<close> counts those it
  returned, and \<open>calls\<close> is the trace of collaborator calls.
\<close>

record sink =
  connection :: "nat option"
  buffer :: "char list"
  current_buffer_slice :: raw_slice
  current_slice_mem :: "nat option"
  upstream_cx_tx_bytes_buffered :: "64 word"
  cx_overflow_stat :: "64 word"
  cluster_has_connection :: bool
  connections_made :: nat
  calls :: "call list"

definition MaxBufferedStatsBytes :: nat where
  "MaxBufferedStatsBytes = 1024 * 1024 * 16"

definition FlushSliceSizeBytes :: nat where
  "FlushSliceSizeBytes = 1024 * 16"

definition StatPrefix :: string where
  "StatPrefix = ''envoy.'' @ [CHR 0x00]"

definition sizeof_StatPrefix :: nat where
  "sizeof_StatPrefix = length StatPrefix"

text \<open>
  Modelled from the spec: the bits of \<^verbatim>\<open>Network::ConnectionEvent\<close>
  (\<^verbatim>\<open>envoy/network/connection.h\<close>, not among the sources): remote close, local close and
  connected are distinct single bits of the event mask.
\<close>

definition RemoteClose :: "32 word" where
  "RemoteClose = 0x1"

definition LocalClose :: "32 word" where
  "LocalClose = 0x2"

definition Connected :: "32 word" where
  "Connected = 0x4"

definition deferredDelete :: "sink \<Rightarrow> sink" where
  "deferredDelete s = s\<lparr>calls := calls s @ [DeferredDelete (connection s)], connection := None\<rparr>"

definition onEvent :: "32 word \<Rightarrow> sink \<Rightarrow> sink" where
  "onEvent events s =
     (if events AND LocalClose \<noteq> 0 \<or> events AND RemoteClose \<noteq> 0
      then deferredDelete s else s)"

text \<open>
  Modelled from the spec: the connection (\<^verbatim>\<open>Network::ClientConnection\<close>) is not among the
  sources. Closing it delivers the local-close event to the registered callbacks, that is
  to \<open>onEvent\<close> (the test expects one \<^verbatim>\<open>close\<close> only, although the destructor would close
  a connection still held); \<open>write\<close> takes the whole content of the buffer it is given
  into the connection's own send buffer and leaves that buffer empty.
\<close>

definition connection_close :: "nat \<Rightarrow> close_type \<Rightarrow> sink \<Rightarrow> sink" where
  "connection_close c t s = onEvent LocalClose (s\<lparr>calls := calls s @ [ConnClose c t]\<rparr>)"

definition connection_write :: "nat \<Rightarrow> string \<Rightarrow> sink \<Rightarrow> string \<times> sink" where
  "connection_write c b s = (drain (length b) b, s\<lparr>calls := calls s @ [ConnWrite c b]\<rparr>)"

text \<open>
  Modelled from the spec: the cluster manager's \<^verbatim>\<open>tcpConnForCluster\<close> is the ``upstream
  connection-provider'', which returns a connection or none.
\<close>

definition tcpConnForCluster :: "sink \<Rightarrow> nat option \<times> sink" where
  "tcpConnForCluster s =
     (if cluster_has_connection s
      then (Some (connections_made s),
            s\<lparr>connections_made := connections_made s + 1, calls := calls s @ [TcpConnForCluster]\<rparr>)
      else (None, s\<lparr>calls := calls s @ [TcpConnForCluster]\<rparr>))"

subsection \<open>\<^verbatim>\<open>TcpStatsdSink::TlsSink\<close>\<close>

text \<open>
  \<open>write\<close> is given a buffer by reference: the member \<open>buffer\<close> from \<open>endFlush\<close>, a local
  one from \<open>onTimespanComplete\<close>. The model takes the buffer's content and returns what
  is left in it together with the new state; the caller puts it back where it belongs.
\<close>

definition "write" :: "string \<Rightarrow> sink \<Rightarrow> string \<times> sink" where
  "write b s =
     (if unat (upstream_cx_tx_bytes_buffered s) > MaxBufferedStatsBytes then
        let s1 = (case connection s of
                    Some c \<Rightarrow> connection_close c NoFlush s
                  | None \<Rightarrow> s);
            s2 = s1\<lparr>cx_overflow_stat := cx_overflow_stat s1 + 1\<rparr>
        in (drain (length b) b, s2)
      else
        (case connection s of
           None \<Rightarrow>
             (case tcpConnForCluster s of
                (None, s1) \<Rightarrow> (b, s1)
              | (Some c, s1) \<Rightarrow>
                  connection_write c b
                    (s1\<lparr>connection := Some c,
                        calls := calls s1 @ [AddConnectionCallbacks c, SetBufferStats c, Connect c]\<rparr>))
         | Some c \<Rightarrow> connection_write c b s))"

definition usedBuffer :: "bool \<Rightarrow> sink \<Rightarrow> error + nat" where
  "usedBuffer dbg s =
     bindE (ASSERT dbg (current_slice_mem s \<noteq> None)) (\<lambda>_.
       case current_slice_mem s of
         None \<Rightarrow> Inl NullPointer
       | Some p \<Rightarrow> Inr p)"

definition beginFlush :: "bool \<Rightarrow> bool \<Rightarrow> sink \<Rightarrow> error + sink" where
  "beginFlush dbg expect_empty_buffer s =
     bindE (ASSERT dbg (\<not> expect_empty_buffer \<or> length (buffer s) = 0)) (\<lambda>_.
     bindE (ASSERT dbg (current_slice_mem s = None)) (\<lambda>_.
     case reserve FlushSliceSizeBytes of (num_iovecs, sl) \<Rightarrow>
     bindE (ASSERT dbg (num_iovecs = 1)) (\<lambda>_.
     bindE (ASSERT dbg (len sl \<ge> FlushSliceSizeBytes)) (\<lambda>_.
     Inr (s\<lparr>current_buffer_slice := sl, current_slice_mem := Some 0\<rparr>)))))"

definition endFlush :: "bool \<Rightarrow> bool \<Rightarrow> sink \<Rightarrow> error + sink" where
  "endFlush dbg do_write s =
     bindE (ASSERT dbg (current_slice_mem s \<noteq> None)) (\<lambda>_.
     bindE (usedBuffer dbg s) (\<lambda>used.
     let sl = (current_buffer_slice s)\<lparr>len := used\<rparr>;
         s1 = s\<lparr>current_buffer_slice := sl,
                buffer := commit sl (buffer s),
                current_slice_mem := None\<rparr>
     in if do_write
        then (case write (buffer s1) s1 of (b, s2) \<Rightarrow> Inr (s2\<lparr>buffer := b\<rparr>))
        else Inr s1))"

text \<open>
  The writes through \<^verbatim>\<open>current_slice_mem_\<close>: \<open>memcpy_cur\<close> is \<^verbatim>\<open>memcpy(current_slice_mem_,
  src, n)\<close>, \<open>advance\<close> is \<^verbatim>\<open>current_slice_mem_ += n\<close>, \<open>put_char\<close> is
  \<^verbatim>\<open>*current_slice_mem_++ = c\<close> and \<open>itoa_cur\<close> is \<^verbatim>\<open>StringUtil::itoa(current_slice_mem_,
  buffer_size, value)\<close>.
\<close>

definition set_mem :: "char list \<Rightarrow> sink \<Rightarrow> sink" where
  "set_mem m s = s\<lparr>current_buffer_slice := (current_buffer_slice s)\<lparr>mem := m\<rparr>\<rparr>"

definition memcpy_cur :: "string \<Rightarrow> nat \<Rightarrow> sink \<Rightarrow> error + sink" where
  "memcpy_cur src n s =
     (case current_slice_mem s of
        None \<Rightarrow> Inl NullPointer
      | Some p \<Rightarrow> bindE (memcpy (mem (current_buffer_slice s)) p src n) (\<lambda>m. Inr (set_mem m s)))"

definition advance :: "nat \<Rightarrow> sink \<Rightarrow> error + sink" where
  "advance n s =
     (case current_slice_mem s of
        None \<Rightarrow> Inl NullPointer
      | Some p \<Rightarrow> Inr (s\<lparr>current_slice_mem := Some (p + n)\<rparr>))"

definition put_char :: "char \<Rightarrow> sink \<Rightarrow> error + sink" where
  "put_char c s =
     (case current_slice_mem s of
        None \<Rightarrow> Inl NullPointer
      | Some p \<Rightarrow>
          bindE (poke (mem (current_buffer_slice s)) p c) (\<lambda>m.
            Inr ((set_mem m s)\<lparr>current_slice_mem := Some (p + 1)\<rparr>)))"

definition itoa_cur :: "nat \<Rightarrow> 64 word \<Rightarrow> sink \<Rightarrow> error + (nat \<times> sink)" where
  "itoa_cur buffer_size v s =
     (case current_slice_mem s of
        None \<Rightarrow> Inl NullPointer
      | Some p \<Rightarrow>
          bindE (itoa (mem (current_buffer_slice s)) p buffer_size v) (\<lambda>(m, n).
            Inr (n, set_mem m s)))"

definition commonFlush :: "bool \<Rightarrow> string \<Rightarrow> 64 word \<Rightarrow> char \<Rightarrow> sink \<Rightarrow> error + sink" where
  "commonFlush dbg name v stat_type s =
     bindE (ASSERT dbg (current_slice_mem s \<noteq> None)) (\<lambda>_.
     bindE (usedBuffer dbg s) (\<lambda>used.
     bindE (if sub_u64 (len (current_buffer_slice s)) used < u64 (length name + 40)
            then bindE (endFlush dbg False s) (beginFlush dbg False)
            else Inr s) (\<lambda>s.
     bindE (memcpy_cur StatPrefix (sizeof_StatPrefix - 1) s) (\<lambda>s.
     bindE (advance (sizeof_StatPrefix - 1) s) (\<lambda>s.
     bindE (memcpy_cur name (length name) s) (\<lambda>s.
     bindE (advance (length name) s) (\<lambda>s.
     bindE (put_char CHR '':'' s) (\<lambda>s.
     bindE (itoa_cur 30 v s) (\<lambda>(n, s).
     bindE (advance n s) (\<lambda>s.
     bindE (put_char CHR ''|'' s) (\<lambda>s.
     bindE (put_char stat_type s) (\<lambda>s.
     put_char CHR ''\<newline>'' s))))))))))))"

definition flushCounter :: "bool \<Rightarrow> string \<Rightarrow> 64 word \<Rightarrow> sink \<Rightarrow> error + sink" where
  "flushCounter dbg name delta s = commonFlush dbg name delta CHR ''c'' s"

definition flushGauge :: "bool \<Rightarrow> string \<Rightarrow> 64 word \<Rightarrow> sink \<Rightarrow> error + sink" where
  "flushGauge dbg name v s = commonFlush dbg name v CHR ''g'' s"

text \<open>The buffer of \<open>onTimespanComplete\<close> is a local: what \<open>write\<close> leaves in it is gone.\<close>

definition onTimespanComplete :: "string \<Rightarrow> int \<Rightarrow> sink \<Rightarrow> sink" where
  "onTimespanComplete name ms s =
     snd (write (''envoy.'' @ name @ '':'' @ fmt_i64 ms @ ''|ms\<newline>'') s)"

subsection \<open>\<^verbatim>\<open>TcpStatsdSink\<close>: the calls of the registry, sent to the thread's \<^verbatim>\<open>TlsSink\<close>\<close>

definition Tcp_beginFlush :: "bool \<Rightarrow> sink \<Rightarrow> error + sink" where
  "Tcp_beginFlush dbg s = beginFlush dbg True s"

definition Tcp_flushCounter :: "bool \<Rightarrow> string \<Rightarrow> 64 word \<Rightarrow> sink \<Rightarrow> error + sink" where
  "Tcp_flushCounter dbg name delta s = flushCounter dbg name delta s"

definition Tcp_flushGauge :: "bool \<Rightarrow> string \<Rightarrow> 64 word \<Rightarrow> sink \<Rightarrow> error + sink" where
  "Tcp_flushGauge dbg name v s = flushGauge dbg name v s"

definition Tcp_endFlush :: "bool \<Rightarrow> sink \<Rightarrow> error + sink" where
  "Tcp_endFlush dbg s = endFlush dbg True s"

definition Tcp_onTimespanComplete :: "string \<Rightarrow> int \<Rightarrow> sink \<Rightarrow> sink" where
  "Tcp_onTimespanComplete name ms s = onTimespanComplete name ms s"

definition Tcp_onHistogramComplete :: "string \<Rightarrow> 64 word \<Rightarrow> sink \<Rightarrow> sink" where
  "Tcp_onHistogramComplete name v s = Tcp_onTimespanComplete name (milliseconds v) s"

subsection \<open>Flush cycles\<close>

text \<open>
  One flush cycle as the registry drives it: \<open>beginFlush()\<close>, the \<open>flushCounter\<close> and
  \<open>flushGauge\<close> calls in order, \<open>endFlush()\<close>. A run stops at the first error.
\<close>

datatype metric = Counter string "64 word" | Gauge string "64 word"

fun flush_metric :: "bool \<Rightarrow> metric \<Rightarrow> sink \<Rightarrow> error + sink" where
  "flush_metric dbg (Counter name delta) s = Tcp_flushCounter dbg name delta s"
| "flush_metric dbg (Gauge name v) s = Tcp_flushGauge dbg name v s"

fun flush_metrics :: "bool \<Rightarrow> metric list \<Rightarrow> sink \<Rightarrow> error + sink" where
  "flush_metrics dbg [] s = Inr s"
| "flush_metrics dbg (c # cs) s = bindE (flush_metric dbg c s) (flush_metrics dbg cs)"

definition flush_cycle :: "bool \<Rightarrow> metric list \<Rightarrow> sink \<Rightarrow> error + sink" where
  "flush_cycle dbg cs s =
     bindE (Tcp_beginFlush dbg s) (\<lambda>s.
     bindE (flush_metrics dbg cs s) (\<lambda>s.
     Tcp_endFlush dbg s))"

text \<open>The wire line of one call, as the claim and the tests write it.\<close>

fun metric_name :: "metric \<Rightarrow> string" where
  "metric_name (Counter name delta) = name"
| "metric_name (Gauge name v) = name"

fun wire_line :: "metric \<Rightarrow> string" where
  "wire_line (Counter name delta) = ''envoy.'' @ name @ '':'' @ fmt_u64 delta @ ''|c\<newline>''"
| "wire_line (Gauge name v) = ''envoy.'' @ name @ '':'' @ fmt_u64 v @ ''|g\<newline>''"

text \<open>A freshly constructed sink: no connection, empty buffer, null slice pointer.\<close>

definition new_sink :: sink where
  "new_sink = \<lparr>connection = None, buffer = [],
               current_buffer_slice = \<lparr>mem = [], len = 0\<rparr>,
               current_slice_mem = None,
               upstream_cx_tx_bytes_buffered = 0, cx_overflow_stat = 0,
               cluster_has_connection = True, connections_made = 0, calls = []\<rparr>"

section \<open>Notions used to state and prove the properties\<close>

definition line_of :: "string \<Rightarrow> 64 word \<Rightarrow> char \<Rightarrow> string" where
  "line_of name v stat_type =
     ''envoy.'' @ name @ '':'' @ fmt_u64 v @ [CHR ''|'', stat_type, CHR ''\<newline>'']"

definition encode_line :: "string \<Rightarrow> 64 word \<Rightarrow> char \<Rightarrow> sink \<Rightarrow> error + sink" where
  "encode_line name v stat_type s =
     bindE (memcpy_cur StatPrefix (sizeof_StatPrefix - 1) s) (\<lambda>s.
     bindE (advance (sizeof_StatPrefix - 1) s) (\<lambda>s.
     bindE (memcpy_cur name (length name) s) (\<lambda>s.
     bindE (advance (length name) s) (\<lambda>s.
     bindE (put_char CHR '':'' s) (\<lambda>s.
     bindE (itoa_cur 30 v s) (\<lambda>(n, s).
     bindE (advance n s) (\<lambda>s.
     bindE (put_char CHR ''|'' s) (\<lambda>s.
     bindE (put_char stat_type s) (\<lambda>s.
     put_char CHR ''\<newline>'' s)))))))))"

definition at_slice :: "sink \<Rightarrow> char list \<Rightarrow> nat \<Rightarrow> sink" where
  "at_slice s m p =
     s\<lparr>current_buffer_slice := (current_buffer_slice s)\<lparr>mem := m\<rparr>, current_slice_mem := Some p\<rparr>"

definition cycle_open :: "sink \<Rightarrow> bool" where
  "cycle_open s =
     (case current_slice_mem s of
        None \<Rightarrow> False
      | Some p \<Rightarrow> p \<le> len (current_buffer_slice s)
                 \<and> len (current_buffer_slice s) = length (mem (current_buffer_slice s))
                 \<and> len (current_buffer_slice s) < 2 ^ 64)"

definition pending :: "sink \<Rightarrow> string" where
  "pending s =
     (case current_slice_mem s of
        None \<Rightarrow> buffer s
      | Some p \<Rightarrow> buffer s @ take p (mem (current_buffer_slice s)))"

definition environment :: "sink \<Rightarrow> nat option \<times> 64 word \<times> 64 word \<times> bool \<times> nat \<times> call list" where
  "environment s =
     (connection s, upstream_cx_tx_bytes_buffered s, cx_overflow_stat s,
      cluster_has_connection s, connections_made s, calls s)"

definition over_ceiling :: "sink \<Rightarrow> bool" where
  "over_ceiling s = (unat (upstream_cx_tx_bytes_buffered s) > MaxBufferedStatsBytes)"

definition overflow_calls :: "sink \<Rightarrow> call list" where
  "overflow_calls s =
     (case connection s of
        Some c \<Rightarrow> [ConnClose c NoFlush, DeferredDelete (Some c)]
      | None \<Rightarrow> [])"

definition write_calls :: "string \<Rightarrow> sink \<Rightarrow> call list" where
  "write_calls b s =
     (case connection s of
        Some c \<Rightarrow> [ConnWrite c b]
      | None \<Rightarrow>
          if cluster_has_connection s
          then [TcpConnForCluster,
                AddConnectionCallbacks (connections_made s),
                SetBufferStats (connections_made s),
                Connect (connections_made s),
                ConnWrite (connections_made s) b]
          else [TcpConnForCluster])"

section \<open>Basic facts\<close>

lemma bindE_Inr [simp]: "bindE (Inr x) f = f x"
  by (simp add: bindE_def)

lemma bindE_Inl [simp]: "bindE (Inl e) f = Inl e"
  by (simp add: bindE_def)

lemma ASSERT_holds [simp]: "c \<Longrightarrow> ASSERT dbg c = Inr ()"
  by (simp add: ASSERT_def)

lemma ASSERT_release [simp]: "ASSERT False c = Inr ()"
  by (simp add: ASSERT_def)

lemma ASSERT_fails [simp]: "\<not> c \<Longrightarrow> ASSERT True c = Inl AssertionFailed"
  by (simp add: ASSERT_def)

lemma dec_length_le: "0 < k \<Longrightarrow> n < 10 ^ k \<Longrightarrow> length (dec n) \<le> k"
proof (induction n arbitrary: k rule: dec.induct)
  case (1 n)
  show ?case
  proof (cases "n < 10")
    case True
    with "1.prems" show ?thesis by (simp add: dec.simps)
  next
    case False
    then obtain j where k: "k = Suc j" using "1.prems" by (cases k) auto
    have "0 < j" using False "1.prems" k by (cases j) auto
    moreover have "n div 10 < 10 ^ j" using "1.prems" k by (simp add: less_mult_imp_div_less mult.commute)
    ultimately have "length (dec (n div 10)) \<le> j" using "1.IH" False by simp
    then show ?thesis using False k by (subst dec.simps) simp
  qed
qed

lemma dec_length_pos: "0 < length (dec n)"
  by (subst dec.simps) simp

lemma fmt_u64_length: "length (fmt_u64 v) \<le> 20"
proof -
  have "unat v < 2 ^ 64" using unsigned_less [of v] by simp
  also have "(2::nat) ^ 64 < 10 ^ 20" by simp
  finally show ?thesis unfolding fmt_u64_def by (intro dec_length_le) simp_all
qed

lemma length_store [simp]: "off + length bs \<le> length m \<Longrightarrow> length (store m off bs) = length m"
  by (simp add: store_def)

lemma store_store:
  "q = off + length a \<Longrightarrow> q + length b \<le> length m \<Longrightarrow>
   store (store m off a) q b = store m off (a @ b)"
  by (simp add: store_def add.commute add.left_commute)

lemma update_store: "p < length m \<Longrightarrow> m[p := c] = store m p [c]"
  by (simp add: store_def upd_conv_take_nth_drop)

lemma take_store:
  "off + length bs \<le> length m \<Longrightarrow> take (off + length bs) (store m off bs) = take off m @ bs"
  by (simp add: store_def)

lemma length_line_of: "length (line_of name v t) = length name + length (fmt_u64 v) + 10"
  by (simp add: line_of_def)

lemma length_line_of_le: "length (line_of name v t) \<le> length name + 30"
  using fmt_u64_length [of v] by (simp add: length_line_of)

lemma at_slice_self:
  "current_slice_mem s = Some p \<Longrightarrow> at_slice s (mem (current_buffer_slice s)) p = s"
  by (simp add: at_slice_def)

lemma memcpy_cur_at:
  "p + n \<le> length m \<Longrightarrow> memcpy_cur src n (at_slice s m p) = Inr (at_slice s (store m p (take n src)) p)"
  by (simp add: memcpy_cur_def memcpy_def set_mem_def at_slice_def)

lemma advance_at: "advance n (at_slice s m p) = Inr (at_slice s m (p + n))"
  by (simp add: advance_def at_slice_def)

lemma put_char_at:
  "p < length m \<Longrightarrow> put_char c (at_slice s m p) = Inr (at_slice s (store m p [c]) (p + 1))"
  by (simp add: put_char_def poke_def set_mem_def at_slice_def update_store)

lemma itoa_cur_at:
  "p + k \<le> length m \<Longrightarrow>
   itoa_cur k v (at_slice s m p) = Inr (length (fmt_u64 v), at_slice s (store m p (fmt_u64 v)) p)"
  by (simp add: itoa_cur_def itoa_def set_mem_def at_slice_def fmt_u64_def)

lemma encode_line_at:
  assumes "p + length name + 40 \<le> length m"
  shows "encode_line name v t (at_slice s m p) =
         Inr (at_slice s (store m p (line_of name v t)) (p + length (line_of name v t)))"
proof -
  have d: "length (fmt_u64 v) \<le> 20" by (rule fmt_u64_length)
  have pre: "sizeof_StatPrefix - Suc 0 = 6" "take 6 StatPrefix = ''envoy.''"
    by (simp_all add: sizeof_StatPrefix_def StatPrefix_def)
  have "encode_line name v t (at_slice s m p) =
        Inr (at_slice s (store m p (''envoy.'' @ name @ '':'' @ fmt_u64 v @ [CHR ''|'', t, CHR ''\<newline>'']))
               (p + (length name + length (fmt_u64 v) + 10)))"
    using assms d
    by (simp add: encode_line_def pre memcpy_cur_at advance_at put_char_at itoa_cur_at
        store_store add.commute add.left_commute)
  then show ?thesis
    unfolding length_line_of by (simp add: line_of_def)
qed

lemma encode_line_ok:
  assumes "current_slice_mem s = Some p" "p + length name + 40 \<le> length (mem (current_buffer_slice s))"
  shows "encode_line name v t s =
         Inr (at_slice s (store (mem (current_buffer_slice s)) p (line_of name v t))
                (p + length (line_of name v t)))"
  using encode_line_at [OF assms(2), of v t s] assms(1) by (simp add: at_slice_self)

lemma usedBuffer_open: "current_slice_mem s = Some p \<Longrightarrow> usedBuffer dbg s = Inr p"
  by (simp add: usedBuffer_def)

lemma endFlush_no_write:
  "current_slice_mem s = Some p \<Longrightarrow>
   endFlush dbg False s =
     Inr (s\<lparr>current_buffer_slice := (current_buffer_slice s)\<lparr>len := p\<rparr>,
            buffer := buffer s @ take p (mem (current_buffer_slice s)),
            current_slice_mem := None\<rparr>)"
  by (simp add: endFlush_def usedBuffer_open commit_def Let_def)

lemma beginFlush_ok:
  "current_slice_mem s = None \<Longrightarrow> \<not> dbg \<or> \<not> expect_empty_buffer \<or> buffer s = [] \<Longrightarrow>
   beginFlush dbg expect_empty_buffer s =
     Inr (s\<lparr>current_buffer_slice :=
               \<lparr>mem = replicate FlushSliceSizeBytes (CHR 0x00), len = FlushSliceSizeBytes\<rparr>,
            current_slice_mem := Some 0\<rparr>)"
  by (cases dbg) (auto simp add: beginFlush_def reserve_def)

lemma beginFlush_asserts_empty_buffer:
  "buffer s \<noteq> [] \<Longrightarrow> beginFlush True True s = Inl AssertionFailed"
  by (simp add: beginFlush_def)

lemma sub_u64_le: "b \<le> a \<Longrightarrow> a < 2 ^ 64 \<Longrightarrow> sub_u64 a b = a - b"
proof -
  assume le: "b \<le> a" and lt: "a < 2 ^ 64"
  have "a + 2 ^ 64 - b = 2 ^ 64 + (a - b)" using le by arith
  then have "sub_u64 a b = (2 ^ 64 + (a - b)) mod 2 ^ 64" by (simp only: sub_u64_def)
  also have "\<dots> = (a - b) mod 2 ^ 64" by (simp only: mod_add_self1)
  also have "\<dots> = a - b" using lt by (intro mod_less) arith
  finally show ?thesis .
qed

lemma u64_small: "n < 2 ^ 64 \<Longrightarrow> u64 n = n"
  by (simp add: u64_def)

lemma commonFlush_encode_line:
  "commonFlush dbg name v t s =
     bindE (ASSERT dbg (current_slice_mem s \<noteq> None)) (\<lambda>_.
     bindE (usedBuffer dbg s) (\<lambda>used.
     bindE (if sub_u64 (len (current_buffer_slice s)) used < u64 (length name + 40)
            then bindE (endFlush dbg False s) (beginFlush dbg False)
            else Inr s) (encode_line name v t)))"
  unfolding commonFlush_def encode_line_def [abs_def] by (rule refl)

lemma FlushSliceSizeBytes_less: "FlushSliceSizeBytes < 2 ^ 64"
  by (simp add: FlushSliceSizeBytes_def)

lemma commonFlush_fits:
  assumes "current_slice_mem s = Some p"
    and "p \<le> len (current_buffer_slice s)"
    and "len (current_buffer_slice s) = length (mem (current_buffer_slice s))"
    and "len (current_buffer_slice s) < 2 ^ 64"
    and "length name + 40 \<le> FlushSliceSizeBytes"
    and "p + length name + 40 \<le> len (current_buffer_slice s)"
  shows "commonFlush dbg name v t s =
         Inr (at_slice s (store (mem (current_buffer_slice s)) p (line_of name v t))
                (p + length (line_of name v t)))"
proof -
  have "length name + 40 < 2 ^ 64"
    using assms(5) FlushSliceSizeBytes_less by linarith
  then have "\<not> sub_u64 (len (current_buffer_slice s)) p < u64 (length name + 40)"
    using assms by (simp add: sub_u64_le u64_small)
  then show ?thesis
    using assms
    by (simp add: commonFlush_encode_line usedBuffer_open encode_line_ok)
qed

lemma commonFlush_rotates:
  assumes "current_slice_mem s = Some p"
    and "p \<le> len (current_buffer_slice s)"
    and "len (current_buffer_slice s) = length (mem (current_buffer_slice s))"
    and "len (current_buffer_slice s) < 2 ^ 64"
    and "length name + 40 \<le> FlushSliceSizeBytes"
    and "\<not> p + length name + 40 \<le> len (current_buffer_slice s)"
  shows "commonFlush dbg name v t s =
         Inr (s\<lparr>current_buffer_slice :=
                   \<lparr>mem = store (replicate FlushSliceSizeBytes (CHR 0x00)) 0 (line_of name v t),
                    len = FlushSliceSizeBytes\<rparr>,
                buffer := buffer s @ take p (mem (current_buffer_slice s)),
                current_slice_mem := Some (length (line_of name v t))\<rparr>)"
proof -
  have "length name + 40 < 2 ^ 64"
    using assms(5) FlushSliceSizeBytes_less by linarith
  then have rot: "sub_u64 (len (current_buffer_slice s)) p < u64 (length name + 40)"
    using assms by (simp add: sub_u64_le u64_small)
  let ?s1 = "s\<lparr>current_buffer_slice := (current_buffer_slice s)\<lparr>len := p\<rparr>,
               buffer := buffer s @ take p (mem (current_buffer_slice s)),
               current_slice_mem := None\<rparr>"
  let ?s2 = "?s1\<lparr>current_buffer_slice :=
                   \<lparr>mem = replicate FlushSliceSizeBytes (CHR 0x00), len = FlushSliceSizeBytes\<rparr>,
                 current_slice_mem := Some 0\<rparr>"
  have b: "beginFlush dbg False ?s1 = Inr ?s2"
    by (rule beginFlush_ok) simp_all
  have e: "encode_line name v t ?s2 =
           Inr (at_slice ?s2 (store (mem (current_buffer_slice ?s2)) 0 (line_of name v t))
                  (0 + length (line_of name v t)))"
    by (rule encode_line_ok) (use assms(5) in simp_all)
  have "commonFlush dbg name v t s = encode_line name v t ?s2"
    using rot assms(1) b
    by (simp add: commonFlush_encode_line usedBuffer_open endFlush_no_write)
  then show ?thesis
    using e by (simp add: at_slice_def)
qed

section \<open>Encoding into the slices of one cycle\<close>

lemma take_store0: "length bs \<le> length m \<Longrightarrow> take (length bs) (store m 0 bs) = bs"
  by (simp add: store_def)

lemma commonFlush_open:
  assumes "cycle_open s" and "length name + 40 \<le> FlushSliceSizeBytes"
  shows "\<exists>s'. commonFlush dbg name v t s = Inr s' \<and> cycle_open s'
              \<and> pending s' = pending s @ line_of name v t
              \<and> environment s' = environment s"
proof -
  from assms(1) obtain p where p: "current_slice_mem s = Some p"
      "p \<le> len (current_buffer_slice s)"
      "len (current_buffer_slice s) = length (mem (current_buffer_slice s))"
      "len (current_buffer_slice s) < 2 ^ 64"
    by (auto simp: cycle_open_def split: option.splits)
  have L: "length (line_of name v t) \<le> length name + 30"
    by (rule length_line_of_le)
  show ?thesis
  proof (cases "p + length name + 40 \<le> len (current_buffer_slice s)")
    case True
    have fit: "p + length (line_of name v t) \<le> length (mem (current_buffer_slice s))"
      using True L p(3) by linarith
    show ?thesis
      using commonFlush_fits [OF p assms(2) True, of dbg v t] p fit
      by (simp add: cycle_open_def pending_def environment_def at_slice_def take_store)
  next
    case False
    have fit: "length (line_of name v t) \<le> length (replicate FlushSliceSizeBytes (CHR 0x00))"
      using L assms(2) by simp
    show ?thesis
      using commonFlush_rotates [OF p assms(2) False, of dbg v t] p fit
        FlushSliceSizeBytes_less
      by (simp add: cycle_open_def pending_def environment_def take_store0)
  qed
qed

lemma wire_line_line_of:
  "wire_line (Counter name v) = line_of name v CHR ''c''"
  "wire_line (Gauge name v) = line_of name v CHR ''g''"
  by (simp_all add: line_of_def)

lemma flush_metric_open:
  assumes "cycle_open s" and "length (metric_name c) + 40 \<le> FlushSliceSizeBytes"
  shows "\<exists>s'. flush_metric dbg c s = Inr s' \<and> cycle_open s'
              \<and> pending s' = pending s @ wire_line c
              \<and> environment s' = environment s"
proof (cases c)
  case (Counter name v)
  then show ?thesis
    using commonFlush_open [OF assms(1), of name dbg v "CHR ''c''"] assms(2)
    by (simp add: Tcp_flushCounter_def flushCounter_def line_of_def)
next
  case (Gauge name v)
  then show ?thesis
    using commonFlush_open [OF assms(1), of name dbg v "CHR ''g''"] assms(2)
    by (simp add: Tcp_flushGauge_def flushGauge_def line_of_def)
qed

lemma flush_metrics_open:
  assumes "cycle_open s" and "\<forall>c \<in> set cs. length (metric_name c) + 40 \<le> FlushSliceSizeBytes"
  shows "\<exists>s'. flush_metrics dbg cs s = Inr s' \<and> cycle_open s'
              \<and> pending s' = pending s @ concat (map wire_line cs)
              \<and> environment s' = environment s"
  using assms
proof (induction cs arbitrary: s)
  case Nil
  then show ?case by simp
next
  case (Cons c cs)
  from flush_metric_open [OF Cons.prems(1), of c dbg] Cons.prems(2)
  obtain s1 where s1: "flush_metric dbg c s = Inr s1" "cycle_open s1"
      "pending s1 = pending s @ wire_line c" "environment s1 = environment s"
    by auto
  from Cons.IH [OF s1(2)] Cons.prems(2)
  obtain s2 where s2: "flush_metrics dbg cs s1 = Inr s2" "cycle_open s2"
      "pending s2 = pending s1 @ concat (map wire_line cs)" "environment s2 = environment s1"
    by auto
  show ?case
    using s1 s2 by simp
qed

lemma begin_then_metrics:
  assumes "current_slice_mem s = None" and "\<not> dbg \<or> buffer s = []"
    and "\<forall>c \<in> set cs. length (metric_name c) + 40 \<le> FlushSliceSizeBytes"
  shows "\<exists>s'. bindE (Tcp_beginFlush dbg s) (flush_metrics dbg cs) = Inr s' \<and> cycle_open s'
              \<and> pending s' = buffer s @ concat (map wire_line cs)
              \<and> environment s' = environment s"
proof -
  let ?s0 = "s\<lparr>current_buffer_slice :=
               \<lparr>mem = replicate FlushSliceSizeBytes (CHR 0x00), len = FlushSliceSizeBytes\<rparr>,
            current_slice_mem := Some 0\<rparr>"
  have b: "Tcp_beginFlush dbg s = Inr ?s0"
    unfolding Tcp_beginFlush_def using assms(1,2) by (intro beginFlush_ok) auto
  have o: "cycle_open ?s0"
    using FlushSliceSizeBytes_less by (simp add: cycle_open_def)
  from flush_metrics_open [OF o assms(3), of dbg]
  show ?thesis
    using b by (simp add: pending_def environment_def)
qed

section \<open>The four outcomes of a write\<close>

lemma write_over:
  assumes "over_ceiling s"
  shows "write b s =
    ([], (case connection s of
            Some c \<Rightarrow> s\<lparr>connection := None,
                         cx_overflow_stat := cx_overflow_stat s + 1,
                         calls := calls s @ [ConnClose c NoFlush, DeferredDelete (Some c)]\<rparr>
          | None \<Rightarrow> s\<lparr>cx_overflow_stat := cx_overflow_stat s + 1\<rparr>))"
  using assms
  by (simp add: write_def over_ceiling_def drain_def connection_close_def onEvent_def
      deferredDelete_def LocalClose_def RemoteClose_def split: option.splits)

lemma write_connected:
  assumes "\<not> over_ceiling s" and "connection s = Some c"
  shows "write b s = ([], s\<lparr>calls := calls s @ [ConnWrite c b]\<rparr>)"
  using assms
  by (simp add: write_def over_ceiling_def connection_write_def drain_def)

lemma write_connects:
  assumes "\<not> over_ceiling s" and "connection s = None" and "cluster_has_connection s"
  shows "write b s =
    ([], s\<lparr>connection := Some (connections_made s),
            connections_made := connections_made s + 1,
            calls := calls s @ [TcpConnForCluster,
                                AddConnectionCallbacks (connections_made s),
                                SetBufferStats (connections_made s),
                                Connect (connections_made s),
                                ConnWrite (connections_made s) b]\<rparr>)"
  using assms
  by (simp add: write_def over_ceiling_def connection_write_def drain_def tcpConnForCluster_def)

lemma write_no_connection:
  assumes "\<not> over_ceiling s" and "connection s = None" and "\<not> cluster_has_connection s"
  shows "write b s = (b, s\<lparr>calls := calls s @ [TcpConnForCluster]\<rparr>)"
  using assms
  by (simp add: write_def over_ceiling_def tcpConnForCluster_def)

lemma write_frame:
  "buffer (snd (write b s)) = buffer s
   \<and> current_buffer_slice (snd (write b s)) = current_buffer_slice s
   \<and> current_slice_mem (snd (write b s)) = current_slice_mem s
   \<and> upstream_cx_tx_bytes_buffered (snd (write b s)) = upstream_cx_tx_bytes_buffered s
   \<and> cluster_has_connection (snd (write b s)) = cluster_has_connection s"
  by (simp add: write_def connection_write_def drain_def tcpConnForCluster_def
      connection_close_def onEvent_def deferredDelete_def Let_def split: option.splits prod.splits)

lemma endFlush_write:
  "current_slice_mem s = Some p \<Longrightarrow>
   endFlush dbg True s =
     (case write (buffer s @ take p (mem (current_buffer_slice s)))
                 (s\<lparr>current_buffer_slice := (current_buffer_slice s)\<lparr>len := p\<rparr>,
                    buffer := buffer s @ take p (mem (current_buffer_slice s)),
                    current_slice_mem := None\<rparr>) of
        (b, s2) \<Rightarrow> Inr (s2\<lparr>buffer := b\<rparr>))"
  by (simp add: endFlush_def usedBuffer_open commit_def Let_def)

lemma flush_cycle_unfold:
  "flush_cycle dbg cs s = bindE (bindE (Tcp_beginFlush dbg s) (flush_metrics dbg cs)) (Tcp_endFlush dbg)"
  by (cases "Tcp_beginFlush dbg s") (simp_all add: flush_cycle_def)

lemma calls_write:
  "calls (snd (write b s)) =
     calls s @ (if over_ceiling s then overflow_calls s else write_calls b s)"
proof (cases "over_ceiling s")
  case True
  then show ?thesis
    by (simp add: write_over overflow_calls_def split: option.splits)
next
  case False
  then show ?thesis
    by (cases "connection s"; cases "cluster_has_connection s")
       (simp_all add: write_connected write_connects write_no_connection write_calls_def)
qed

lemma cx_overflow_stat_write:
  "cx_overflow_stat (snd (write b s)) =
     (if over_ceiling s then cx_overflow_stat s + 1 else cx_overflow_stat s)"
proof (cases "over_ceiling s")
  case True
  then show ?thesis
    by (simp add: write_over split: option.splits)
next
  case False
  then show ?thesis
    by (cases "connection s"; cases "cluster_has_connection s")
       (simp_all add: write_connected write_connects write_no_connection)
qed

lemma connection_write_result:
  "connection (snd (write b s)) =
     (if over_ceiling s then None
      else case connection s of
             Some c \<Rightarrow> Some c
           | None \<Rightarrow> if cluster_has_connection s then Some (connections_made s) else None)"
proof (cases "over_ceiling s")
  case True
  then show ?thesis
    by (simp add: write_over split: option.splits)
next
  case False
  then show ?thesis
    by (cases "connection s"; cases "cluster_has_connection s")
       (simp_all add: write_connected write_connects write_no_connection)
qed

lemma fst_write:
  "fst (write b s) =
     (if \<not> over_ceiling s \<and> connection s = None \<and> \<not> cluster_has_connection s then b else [])"
proof (cases "over_ceiling s")
  case True
  then show ?thesis
    by (simp add: write_over)
next
  case False
  then show ?thesis
    by (cases "connection s"; cases "cluster_has_connection s")
       (simp_all add: write_connected write_connects write_no_connection)
qed

lemma connections_made_write:
  "connections_made (snd (write b s)) =
     (if \<not> over_ceiling s \<and> connection s = None \<and> cluster_has_connection s
      then connections_made s + 1 else connections_made s)"
proof (cases "over_ceiling s")
  case True
  then show ?thesis
    by (simp add: write_over split: option.splits)
next
  case False
  then show ?thesis
    by (cases "connection s"; cases "cluster_has_connection s")
       (simp_all add: write_connected write_connects write_no_connection)
qed

lemma slice_update_irrelevant:
  "over_ceiling (s\<lparr>current_buffer_slice := x, buffer := y, current_slice_mem := z\<rparr>) = over_ceiling s"
  "overflow_calls (s\<lparr>current_buffer_slice := x, buffer := y, current_slice_mem := z\<rparr>) = overflow_calls s"
  "write_calls b (s\<lparr>current_buffer_slice := x, buffer := y, current_slice_mem := z\<rparr>) = write_calls b s"
  by (simp_all add: over_ceiling_def overflow_calls_def write_calls_def split: option.splits)

text \<open>\<open>endFlush(true)\<close> on an open cycle, field by field.\<close>

lemma endFlush_write_fields:
  assumes "cycle_open s"
  shows "\<exists>s'. endFlush dbg True s = Inr s'
     \<and> buffer s' = (if \<not> over_ceiling s \<and> connection s = None \<and> \<not> cluster_has_connection s
                    then pending s else [])
     \<and> current_slice_mem s' = None
     \<and> calls s' = calls s @ (if over_ceiling s then overflow_calls s else write_calls (pending s) s)
     \<and> cx_overflow_stat s' = (if over_ceiling s then cx_overflow_stat s + 1 else cx_overflow_stat s)
     \<and> connection s' =
         (if over_ceiling s then None
          else case connection s of
                 Some c \<Rightarrow> Some c
               | None \<Rightarrow> if cluster_has_connection s then Some (connections_made s) else None)
     \<and> connections_made s' =
         (if \<not> over_ceiling s \<and> connection s = None \<and> cluster_has_connection s
          then connections_made s + 1 else connections_made s)
     \<and> upstream_cx_tx_bytes_buffered s' = upstream_cx_tx_bytes_buffered s
     \<and> cluster_has_connection s' = cluster_has_connection s"
proof -
  from assms obtain p where p: "current_slice_mem s = Some p"
    by (auto simp: cycle_open_def split: option.splits)
  let ?b = "buffer s @ take p (mem (current_buffer_slice s))"
  let ?s1 = "s\<lparr>current_buffer_slice := (current_buffer_slice s)\<lparr>len := p\<rparr>,
               buffer := ?b, current_slice_mem := None\<rparr>"
  have b: "?b = pending s" using p by (simp add: pending_def)
  obtain b' s2 where w: "write ?b ?s1 = (b', s2)" by (cases "write ?b ?s1")
  have e: "endFlush dbg True s = Inr (s2\<lparr>buffer := b'\<rparr>)"
    using p w by (simp add: endFlush_write)
  have f: "b' = fst (write ?b ?s1)" "s2 = snd (write ?b ?s1)" using w by simp_all
  show ?thesis
    unfolding e f
    using write_frame [of ?b ?s1]
    by (simp add: calls_write cx_overflow_stat_write connection_write_result fst_write
        connections_made_write slice_update_irrelevant b cong: option.case_cong)
qed

lemma same_environment:
  assumes "environment s1 = environment s"
  shows "over_ceiling s1 = over_ceiling s" and "overflow_calls s1 = overflow_calls s"
    and "write_calls b s1 = write_calls b s" and "calls s1 = calls s"
    and "connection s1 = connection s" and "cx_overflow_stat s1 = cx_overflow_stat s"
    and "connections_made s1 = connections_made s"
    and "cluster_has_connection s1 = cluster_has_connection s"
    and "upstream_cx_tx_bytes_buffered s1 = upstream_cx_tx_bytes_buffered s"
  using assms
  by (simp_all add: environment_def over_ceiling_def overflow_calls_def write_calls_def
      cong: option.case_cong)

text \<open>A whole cycle on a sink between cycles, field by field.\<close>

lemma flush_cycle_fields:
  assumes "current_slice_mem s = None" and "\<not> dbg \<or> buffer s = []"
    and "\<forall>c \<in> set cs. length (metric_name c) + 40 \<le> FlushSliceSizeBytes"
  shows "\<exists>s'. flush_cycle dbg cs s = Inr s'
     \<and> buffer s' = (if \<not> over_ceiling s \<and> connection s = None \<and> \<not> cluster_has_connection s
                    then buffer s @ concat (map wire_line cs) else [])
     \<and> current_slice_mem s' = None
     \<and> calls s' = calls s @ (if over_ceiling s then overflow_calls s
                              else write_calls (buffer s @ concat (map wire_line cs)) s)
     \<and> cx_overflow_stat s' = (if over_ceiling s then cx_overflow_stat s + 1 else cx_overflow_stat s)
     \<and> connection s' =
         (if over_ceiling s then None
          else case connection s of
                 Some c \<Rightarrow> Some c
               | None \<Rightarrow> if cluster_has_connection s then Some (connections_made s) else None)
     \<and> connections_made s' =
         (if \<not> over_ceiling s \<and> connection s = None \<and> cluster_has_connection s
          then connections_made s + 1 else connections_made s)
     \<and> upstream_cx_tx_bytes_buffered s' = upstream_cx_tx_bytes_buffered s
     \<and> cluster_has_connection s' = cluster_has_connection s"
proof -
  from begin_then_metrics [OF assms]
  obtain s1 where s1: "bindE (Tcp_beginFlush dbg s) (flush_metrics dbg cs) = Inr s1"
      "cycle_open s1" "pending s1 = buffer s @ concat (map wire_line cs)"
      "environment s1 = environment s"
    by auto
  have e: "flush_cycle dbg cs s = endFlush dbg True s1"
    using s1(1) by (simp add: flush_cycle_unfold Tcp_endFlush_def)
  show ?thesis
    using endFlush_write_fields [OF s1(2), of dbg]
    unfolding e s1(3) same_environment [OF s1(4)] .
qed

text \<open>Rules that evaluate the model on concrete sinks and numerals.\<close>

lemmas evals = new_sink_def over_ceiling_def MaxBufferedStatsBytes_def FlushSliceSizeBytes_def
  write_calls_def overflow_calls_def fmt_u64_def dec.simps digit_char_def

section \<open>One cycle transmits the concatenation of its lines\<close>

text \<open>
  C1 (as the code has it). Take a sink between cycles whose buffer is empty, a list of
  \<open>flushCounter\<close>/\<open>flushGauge\<close> calls each of whose names fits a fresh slice
  (\<open>name.size() + 40 \<le> 16384\<close>), the buffered-bytes counter not over the ceiling, and a
  connection held or obtainable. Then \<open>beginFlush()\<close>, the calls, \<open>endFlush()\<close> return, and
  the one write they make on the connection carries exactly the concatenation, in call
  order, of the calls' wire lines, however many slices the cycle went through; the buffer
  is empty afterwards.
\<close>

theorem tcp_cycle_writes_concatenation:
  assumes "current_slice_mem s = None" and "buffer s = []"
    and "\<forall>c \<in> set cs. length (metric_name c) + 40 \<le> FlushSliceSizeBytes"
    and "\<not> over_ceiling s"
    and "connection s \<noteq> None \<or> cluster_has_connection s"
  shows "\<exists>s'. flush_cycle dbg cs s = Inr s' \<and> buffer s' = [] \<and> current_slice_mem s' = None \<and>
           calls s' = calls s @
             (case connection s of
                Some c \<Rightarrow> [ConnWrite c (concat (map wire_line cs))]
              | None \<Rightarrow> [TcpConnForCluster,
                          AddConnectionCallbacks (connections_made s),
                          SetBufferStats (connections_made s),
                          Connect (connections_made s),
                          ConnWrite (connections_made s) (concat (map wire_line cs))])"
proof -
  from begin_then_metrics [OF assms(1) _ assms(3), of dbg] assms(2)
  obtain s1 where s1: "bindE (Tcp_beginFlush dbg s) (flush_metrics dbg cs) = Inr s1"
      "cycle_open s1" "pending s1 = concat (map wire_line cs)" "environment s1 = environment s"
    by auto
  from s1(2) obtain p where p: "current_slice_mem s1 = Some p"
    by (auto simp: cycle_open_def split: option.splits)
  let ?b = "buffer s1 @ take p (mem (current_buffer_slice s1))"
  let ?s2 = "s1\<lparr>current_buffer_slice := (current_buffer_slice s1)\<lparr>len := p\<rparr>,
               buffer := ?b, current_slice_mem := None\<rparr>"
  have b: "?b = concat (map wire_line cs)"
    using s1(3) p by (simp add: pending_def)
  have env: "connection s1 = connection s" "calls s1 = calls s"
      "connections_made s1 = connections_made s"
      "cluster_has_connection s1 = cluster_has_connection s"
      "over_ceiling s1 = over_ceiling s"
    using s1(4) by (simp_all add: environment_def over_ceiling_def)
  have e: "flush_cycle dbg cs s = (case write ?b ?s2 of (b, s3) \<Rightarrow> Inr (s3\<lparr>buffer := b\<rparr>))"
    using s1(1) p by (simp add: flush_cycle_unfold Tcp_endFlush_def endFlush_write)
  show ?thesis
  proof (cases "connection s")
    case None
    with assms(5) have avail: "cluster_has_connection ?s2" using env by simp
    have "write ?b ?s2 = ([], ?s2\<lparr>connection := Some (connections_made ?s2),
            connections_made := connections_made ?s2 + 1,
            calls := calls ?s2 @ [TcpConnForCluster,
                                AddConnectionCallbacks (connections_made ?s2),
                                SetBufferStats (connections_made ?s2),
                                Connect (connections_made ?s2),
                                ConnWrite (connections_made ?s2) ?b]\<rparr>)"
      using assms(4) env None avail by (intro write_connects) (simp_all add: over_ceiling_def)
    then show ?thesis
      using e b env None by simp
  next
    case (Some c)
    have "write ?b ?s2 = ([], ?s2\<lparr>calls := calls ?s2 @ [ConnWrite c ?b]\<rparr>)"
      using assms(4) env Some by (intro write_connected) (simp_all add: over_ceiling_def)
    then show ?thesis
      using e b env Some by simp
  qed
qed

text \<open>
  The test \<^verbatim>\<open>BufferReallocate\<close>: 2000 times \<open>flushCounter("test_counter", 1)\<close> in one cycle of
  a new sink, 46000 bytes over slices of 16384.
\<close>

theorem tcp_cycle_2000_counters:
  "\<exists>s'. flush_cycle True (replicate 2000 (Counter ''test_counter'' 1)) new_sink = Inr s' \<and>
        buffer s' = [] \<and> current_slice_mem s' = None \<and>
        calls s' = [TcpConnForCluster, AddConnectionCallbacks 0, SetBufferStats 0, Connect 0,
                    ConnWrite 0 (concat (replicate 2000 ''envoy.test_counter:1|c\<newline>''))]"
  using tcp_cycle_writes_concatenation
    [of new_sink "replicate 2000 (Counter ''test_counter'' 1)" True]
  by (simp add: new_sink_def over_ceiling_def MaxBufferedStatsBytes_def FlushSliceSizeBytes_def
      fmt_u64_def dec.simps digit_char_def)

lemma new_cycle_open:
  "cycle_open (s\<lparr>current_buffer_slice :=
               \<lparr>mem = replicate FlushSliceSizeBytes (CHR 0x00), len = FlushSliceSizeBytes\<rparr>,
            current_slice_mem := Some 0\<rparr>)"
  using FlushSliceSizeBytes_less by (simp add: cycle_open_def)

lemma oversize_name_out_of_bounds:
  assumes "current_slice_mem s = None" and "buffer s = []" 
    and "FlushSliceSizeBytes < length name + 6" and "length name + 40 < 2 ^ 64"
  shows "flush_cycle dbg [Counter name v] s = Inl OutOfBounds"
proof -
  let ?s0 = "s\<lparr>current_buffer_slice :=
               \<lparr>mem = replicate FlushSliceSizeBytes (CHR 0x00), len = FlushSliceSizeBytes\<rparr>,
            current_slice_mem := Some 0\<rparr>"
  have b: "Tcp_beginFlush dbg s = Inr ?s0"
    unfolding Tcp_beginFlush_def using assms(1,2) by (intro beginFlush_ok) auto
  have rot: "sub_u64 FlushSliceSizeBytes 0 < u64 (length name + 40)"
    using assms(3,4) FlushSliceSizeBytes_less by (simp add: sub_u64_le u64_small)
  let ?s1 = "?s0\<lparr>current_buffer_slice := (current_buffer_slice ?s0)\<lparr>len := 0\<rparr>,
               buffer := buffer ?s0 @ take 0 (mem (current_buffer_slice ?s0)),
               current_slice_mem := None\<rparr>"
  have e: "endFlush dbg False ?s0 = Inr ?s1"
    by (rule endFlush_no_write) simp
  have b2: "beginFlush dbg False ?s1 = Inr ?s0"
    using beginFlush_ok [of ?s1 dbg False] assms(2) by simp
  have pre: "sizeof_StatPrefix - Suc 0 = 6" "take 6 StatPrefix = ''envoy.''"
    by (simp_all add: sizeof_StatPrefix_def StatPrefix_def)
  have six: "6 \<le> FlushSliceSizeBytes" by (simp add: FlushSliceSizeBytes_def)
  have enc: "encode_line name v CHR ''c'' ?s0 = Inl OutOfBounds"
    using assms(3) six
    by (simp add: encode_line_def pre memcpy_cur_def memcpy_def advance_def set_mem_def)
  have "commonFlush dbg name v CHR ''c'' ?s0 = Inl OutOfBounds"
    using rot e b2 enc
    by (simp add: commonFlush_encode_line usedBuffer_def)
  then show ?thesis
    using b by (simp add: flush_cycle_def Tcp_flushCounter_def flushCounter_def)
qed

text \<open>
  C1 as the spec states it speaks of every sequence of calls. A name that does not fit a
  fresh slice is outside what the rotation can repair: with a name of 16384 bytes the
  slice is rotated, the prefix is copied, and the copy of the name runs past the end of
  the 16 KiB slice (undefined behaviour in the source; the model stops there), in a debug
  build and in a release build alike. No line is transmitted.
\<close>

theorem tcp_cycle_oversize_name:
  "flush_cycle True [Counter (replicate 16384 CHR ''a'') 1] new_sink = Inl OutOfBounds
   \<and> flush_cycle False [Counter (replicate 16384 CHR ''a'') 1] new_sink = Inl OutOfBounds"
proof -
  have "flush_cycle dbg [Counter (replicate 16384 CHR ''a'') 1] new_sink = Inl OutOfBounds" for dbg
    by (rule oversize_name_out_of_bounds) (simp_all add: new_sink_def FlushSliceSizeBytes_def)
  then show ?thesis by simp
qed

section \<open>The encoder stays inside the reserved slice\<close>

text \<open>
  C10. In an open cycle (the pointer inside its slice, \<open>len_\<close> the capacity of the slice),
  \<open>flushCounter\<close> and \<open>flushGauge\<close> with a name such that \<open>name.size() + 40 \<le> 16384\<close>
  return without any write outside the slice they write to (each \<open>memcpy\<close>, each
  \<open>*p++ = c\<close> and the 30 bytes offered to \<open>itoa\<close> are checked against the capacity, and
  none fails), and the pointer is inside the current slice afterwards. The line takes at
  most \<open>name.size() + 30\<close> bytes: prefix 6, colon 1, at most 20 digits, and 3 for
  \<open>|\<close>, the type and the newline; so the margin of 40 is enough.
\<close>

theorem encoder_stays_in_slice:
  assumes "cycle_open s" and "length name + 40 \<le> FlushSliceSizeBytes"
  shows "(\<exists>s' p. Tcp_flushCounter dbg name v s = Inr s' \<and> current_slice_mem s' = Some p
              \<and> p \<le> len (current_buffer_slice s')
              \<and> len (current_buffer_slice s') = length (mem (current_buffer_slice s')))
       \<and> (\<exists>s' p. Tcp_flushGauge dbg name v s = Inr s' \<and> current_slice_mem s' = Some p
              \<and> p \<le> len (current_buffer_slice s')
              \<and> len (current_buffer_slice s') = length (mem (current_buffer_slice s')))
       \<and> length (wire_line (Counter name v)) \<le> length name + 30
       \<and> length (wire_line (Gauge name v)) \<le> length name + 30"
proof -
  have "\<exists>s' p. commonFlush dbg name v t s = Inr s' \<and> current_slice_mem s' = Some p
              \<and> p \<le> len (current_buffer_slice s')
              \<and> len (current_buffer_slice s') = length (mem (current_buffer_slice s'))" for t
    using commonFlush_open [OF assms, of dbg v t]
    by (auto simp: cycle_open_def split: option.splits)
  moreover have "length (wire_line (Counter name v)) \<le> length name + 30"
    "length (wire_line (Gauge name v)) \<le> length name + 30"
    using length_line_of_le [of name v "CHR ''c''"] length_line_of_le [of name v "CHR ''g''"]
    by (simp_all add: line_of_def)
  ultimately show ?thesis
    by (simp add: Tcp_flushCounter_def Tcp_flushGauge_def flushCounter_def flushGauge_def)
qed

text \<open>
  An instance where the slice has to be rotated: 34 bytes are left in the slice, the
  call asks for \<open>12 + 40\<close>.
\<close>

theorem encoder_stays_in_slice_at_full_slice:
  "(\<exists>s' p. Tcp_flushCounter True ''test_counter'' 1
              (new_sink\<lparr>current_buffer_slice :=
                          \<lparr>mem = replicate 16384 (CHR ''x''), len = 16384\<rparr>,
                        current_slice_mem := Some 16350\<rparr>) = Inr s'
            \<and> current_slice_mem s' = Some p
            \<and> p \<le> len (current_buffer_slice s')
            \<and> len (current_buffer_slice s') = length (mem (current_buffer_slice s')))
   \<and> (\<exists>s' p. Tcp_flushGauge True ''test_counter'' 1
              (new_sink\<lparr>current_buffer_slice :=
                          \<lparr>mem = replicate 16384 (CHR ''x''), len = 16384\<rparr>,
                        current_slice_mem := Some 16350\<rparr>) = Inr s'
            \<and> current_slice_mem s' = Some p
            \<and> p \<le> len (current_buffer_slice s')
            \<and> len (current_buffer_slice s') = length (mem (current_buffer_slice s')))
   \<and> length (wire_line (Counter ''test_counter'' 1)) \<le> length ''test_counter'' + 30
   \<and> length (wire_line (Gauge ''test_counter'' 1)) \<le> length ''test_counter'' + 30"
  by (rule encoder_stays_in_slice)
     (simp_all add: cycle_open_def new_sink_def FlushSliceSizeBytes_def)

section \<open>A cycle that obtains no connection\<close>

text \<open>
  C2 at the input where the code departs from it: a new sink whose cluster manager has no
  connection to give, one cycle with \<open>flushCounter("a", 1)\<close>. \<open>write\<close> asks for a
  connection, gets none and returns without draining: after \<open>endFlush()\<close> the buffer still
  holds the 12 bytes of the batch, and the next \<open>beginFlush()\<close> of a debug build fails its
  own \<^verbatim>\<open>ASSERT(!expect_empty_buffer || buffer_.length() == 0)\<close>.
\<close>

theorem dropped_batch_stays_in_buffer:
  "\<exists>s'. flush_cycle True [Counter ''a'' 1] (new_sink\<lparr>cluster_has_connection := False\<rparr>) = Inr s'
       \<and> calls s' = [TcpConnForCluster] \<and> connection s' = None
       \<and> buffer s' = ''envoy.a:1|c\<newline>'' \<and> length (buffer s') = 12
       \<and> Tcp_beginFlush True s' = Inl AssertionFailed"
proof -
  from flush_cycle_fields [of "new_sink\<lparr>cluster_has_connection := False\<rparr>" True "[Counter ''a'' 1]"]
  obtain s' where s': "flush_cycle True [Counter ''a'' 1] (new_sink\<lparr>cluster_has_connection := False\<rparr>) = Inr s'"
      "calls s' = [TcpConnForCluster]" "connection s' = None"
      "buffer s' = ''envoy.a:1|c\<newline>''"
    by (auto simp: evals)
  have "Tcp_beginFlush True s' = Inl AssertionFailed"
    unfolding Tcp_beginFlush_def using s'(4) by (intro beginFlush_asserts_empty_buffer) simp
  then show ?thesis using s' by simp
qed

text \<open>
  C7 at the same input, in a release build: the cycle asks the cluster manager for a
  connection, gets none, stays without connection and returns normally; but the batch is
  not dropped. It stays in the buffer and the next cycle, which asks for a connection
  again and gets one, transmits it in front of its own batch.
\<close>

theorem dropped_batch_resent_next_cycle:
  "\<exists>s1 s2. flush_cycle False [Counter ''a'' 1] (new_sink\<lparr>cluster_has_connection := False\<rparr>) = Inr s1
       \<and> calls s1 = [TcpConnForCluster] \<and> connection s1 = None
       \<and> buffer s1 = ''envoy.a:1|c\<newline>''
       \<and> flush_cycle False [Gauge ''b'' 2] (s1\<lparr>cluster_has_connection := True\<rparr>) = Inr s2
       \<and> calls s2 = [TcpConnForCluster, TcpConnForCluster, AddConnectionCallbacks 0,
                     SetBufferStats 0, Connect 0,
                     ConnWrite 0 ''envoy.a:1|c\<newline>envoy.b:2|g\<newline>'']"
proof -
  from flush_cycle_fields [of "new_sink\<lparr>cluster_has_connection := False\<rparr>" False "[Counter ''a'' 1]"]
  obtain s1 where s1: "flush_cycle False [Counter ''a'' 1] (new_sink\<lparr>cluster_has_connection := False\<rparr>) = Inr s1"
      "calls s1 = [TcpConnForCluster]" "connection s1 = None"
      "buffer s1 = ''envoy.a:1|c\<newline>''" "current_slice_mem s1 = None"
      "connections_made s1 = 0" "upstream_cx_tx_bytes_buffered s1 = 0"
    by (auto simp: evals)
  from flush_cycle_fields [of "s1\<lparr>cluster_has_connection := True\<rparr>" False "[Gauge ''b'' 2]"] s1
  obtain s2 where s2: "flush_cycle False [Gauge ''b'' 2] (s1\<lparr>cluster_has_connection := True\<rparr>) = Inr s2"
      "calls s2 = [TcpConnForCluster, TcpConnForCluster, AddConnectionCallbacks 0,
                     SetBufferStats 0, Connect 0,
                     ConnWrite 0 ''envoy.a:1|c\<newline>envoy.b:2|g\<newline>'']"
    by (auto simp: evals)
  show ?thesis using s1 s2 by blast
qed

section \<open>Over the ceiling\<close>

lemma over_ceiling_write [simp]: "over_ceiling (snd (write b s)) = over_ceiling s"
  using write_frame [of b s] by (simp add: over_ceiling_def)

lemma onTimespanComplete_fields:
  "calls (onTimespanComplete name ms s) =
     calls s @ (if over_ceiling s then overflow_calls s
                else write_calls (''envoy.'' @ name @ '':'' @ fmt_i64 ms @ ''|ms\<newline>'') s)"
  "cx_overflow_stat (onTimespanComplete name ms s) =
     (if over_ceiling s then cx_overflow_stat s + 1 else cx_overflow_stat s)"
  "connection (onTimespanComplete name ms s) =
     (if over_ceiling s then None
      else case connection s of
             Some c \<Rightarrow> Some c
           | None \<Rightarrow> if cluster_has_connection s then Some (connections_made s) else None)"
  by (simp_all add: onTimespanComplete_def calls_write cx_overflow_stat_write
      connection_write_result)

text \<open>
  C3. Let the buffered-bytes counter be over the ceiling of 16 MiB. Every write attempt
  (from \<open>endFlush\<close> or from a timer) hands nothing to a connection: its only collaborator
  calls are the close without flush of the connection it holds, if any, and the deferred
  deletion that the close event brings; the buffer it was given is emptied, the sink has
  no connection afterwards and the overflow counter is one higher. Two consecutive cycles
  over the ceiling raise the counter by two and write nothing; when the counter is then set
  to a value not over the ceiling, the next cycle asks for a connection and writes its
  batch, the overflow counter unchanged.
\<close>

theorem overflow_closes_and_discards:
  assumes "over_ceiling s"
    and "current_slice_mem s = None" and "buffer s = []"
    and "\<forall>c \<in> set cs1. length (metric_name c) + 40 \<le> FlushSliceSizeBytes"
    and "\<forall>c \<in> set cs2. length (metric_name c) + 40 \<le> FlushSliceSizeBytes"
    and "\<forall>c \<in> set cs3. length (metric_name c) + 40 \<le> FlushSliceSizeBytes"
    and "unat v \<le> MaxBufferedStatsBytes" and "cluster_has_connection s"
  shows "fst (write b s) = []
       \<and> calls (snd (write b s)) =
           calls s @ (case connection s of
                        Some c \<Rightarrow> [ConnClose c NoFlush, DeferredDelete (Some c)]
                      | None \<Rightarrow> [])
       \<and> connection (snd (write b s)) = None
       \<and> cx_overflow_stat (snd (write b s)) = cx_overflow_stat s + 1
       \<and> calls (Tcp_onTimespanComplete name ms s) = calls (snd (write b s))
       \<and> cx_overflow_stat (Tcp_onTimespanComplete name ms s) = cx_overflow_stat s + 1
       \<and> (\<exists>s1 s2 s3.
             flush_cycle dbg cs1 s = Inr s1
             \<and> calls s1 = calls (snd (write b s)) \<and> buffer s1 = [] \<and> connection s1 = None
             \<and> cx_overflow_stat s1 = cx_overflow_stat s + 1
             \<and> flush_cycle dbg cs2 s1 = Inr s2
             \<and> calls s2 = calls s1 \<and> buffer s2 = [] \<and> connection s2 = None
             \<and> cx_overflow_stat s2 = cx_overflow_stat s + 2
             \<and> flush_cycle dbg cs3 (s2\<lparr>upstream_cx_tx_bytes_buffered := v\<rparr>) = Inr s3
             \<and> calls s3 = calls s2 @
                  [TcpConnForCluster,
                   AddConnectionCallbacks (connections_made s),
                   SetBufferStats (connections_made s),
                   Connect (connections_made s),
                   ConnWrite (connections_made s) (concat (map wire_line cs3))]
             \<and> buffer s3 = []
             \<and> cx_overflow_stat s3 = cx_overflow_stat s + 2)"
proof -
  have w: "fst (write b s) = []"
    "calls (snd (write b s)) =
           calls s @ (case connection s of
                        Some c \<Rightarrow> [ConnClose c NoFlush, DeferredDelete (Some c)]
                      | None \<Rightarrow> [])"
    "connection (snd (write b s)) = None"
    "cx_overflow_stat (snd (write b s)) = cx_overflow_stat s + 1"
    using assms(1)
    by (simp_all add: fst_write calls_write connection_write_result cx_overflow_stat_write
        overflow_calls_def)
  have t: "calls (Tcp_onTimespanComplete name ms s) = calls (snd (write b s))"
    "cx_overflow_stat (Tcp_onTimespanComplete name ms s) = cx_overflow_stat s + 1"
    using assms(1)
    by (simp_all add: Tcp_onTimespanComplete_def onTimespanComplete_fields calls_write)
  from flush_cycle_fields [OF assms(2) _ assms(4), of dbg] assms(1,3)
  obtain s1 where s1: "flush_cycle dbg cs1 s = Inr s1"
      "buffer s1 = []" "current_slice_mem s1 = None"
      "calls s1 = calls s @ overflow_calls s"
      "cx_overflow_stat s1 = cx_overflow_stat s + 1" "connection s1 = None"
      "connections_made s1 = connections_made s"
      "upstream_cx_tx_bytes_buffered s1 = upstream_cx_tx_bytes_buffered s"
      "cluster_has_connection s1 = cluster_has_connection s"
    by auto
  have o1: "over_ceiling s1" using assms(1) s1(8) by (simp add: over_ceiling_def)
  from flush_cycle_fields [OF s1(3) _ assms(5), of dbg] o1 s1(2)
  obtain s2 where s2: "flush_cycle dbg cs2 s1 = Inr s2"
      "buffer s2 = []" "current_slice_mem s2 = None"
      "calls s2 = calls s1 @ overflow_calls s1"
      "cx_overflow_stat s2 = cx_overflow_stat s1 + 1" "connection s2 = None"
      "connections_made s2 = connections_made s1"
      "cluster_has_connection s2 = cluster_has_connection s1"
    by auto
  let ?s2 = "s2\<lparr>upstream_cx_tx_bytes_buffered := v\<rparr>"
  have o2: "\<not> over_ceiling ?s2" using assms(7) by (simp add: over_ceiling_def)
  from flush_cycle_fields [of ?s2 dbg cs3] o2 s2 assms(6)
  obtain s3 where s3: "flush_cycle dbg cs3 ?s2 = Inr s3"
      "buffer s3 = (if connection ?s2 = None \<and> \<not> cluster_has_connection ?s2
                    then buffer ?s2 @ concat (map wire_line cs3) else [])"
      "calls s3 = calls ?s2 @ write_calls (buffer ?s2 @ concat (map wire_line cs3)) ?s2"
      "cx_overflow_stat s3 = cx_overflow_stat ?s2"
    by auto
  have c2: "calls s2 = calls s1" using s2(4) s1(6) by (simp add: overflow_calls_def)
  have c3: "calls s3 = calls s2 @
                  [TcpConnForCluster,
                   AddConnectionCallbacks (connections_made s),
                   SetBufferStats (connections_made s),
                   Connect (connections_made s),
                   ConnWrite (connections_made s) (concat (map wire_line cs3))]"
    using s3(3) s2 s1 assms(8) by (simp add: write_calls_def)
  have b3: "buffer s3 = []" using s3(2) s2 s1 assms(8) by simp
  have x3: "cx_overflow_stat s3 = cx_overflow_stat s + 2" using s3(4) s2(5) s1(5) by simp
  have x2: "cx_overflow_stat s2 = cx_overflow_stat s + 2" using s2(5) s1(5) by simp
  have c1: "calls s1 = calls (snd (write b s))" using s1(4) w(2) by (simp add: overflow_calls_def)
  show ?thesis
    using w t s1(1,2,5,6) c1 s2(1,2,6) c2 x2 s3(1) c3 b3 x3 by blast
qed


text \<open>
  The test \<^verbatim>\<open>Overflow\<close>, on a sink that holds connection 0: the counter at 17 MiB for two
  cycles, then at 15 MiB.
\<close>

theorem overflow_test_scenario:
  "fst (write ''envoy.test_counter:1|c\<newline>''
          (new_sink\<lparr>upstream_cx_tx_bytes_buffered := 17825792, connection := Some 0,
                     connections_made := 1\<rparr>)) = []
   \<and> calls (snd (write ''envoy.test_counter:1|c\<newline>''
          (new_sink\<lparr>upstream_cx_tx_bytes_buffered := 17825792, connection := Some 0,
                     connections_made := 1\<rparr>))) = [ConnClose 0 NoFlush, DeferredDelete (Some 0)]
   \<and> connection (snd (write ''envoy.test_counter:1|c\<newline>''
          (new_sink\<lparr>upstream_cx_tx_bytes_buffered := 17825792, connection := Some 0,
                     connections_made := 1\<rparr>))) = None
   \<and> cx_overflow_stat (snd (write ''envoy.test_counter:1|c\<newline>''
          (new_sink\<lparr>upstream_cx_tx_bytes_buffered := 17825792, connection := Some 0,
                     connections_made := 1\<rparr>))) = 1
   \<and> calls (Tcp_onTimespanComplete ''test_timer'' 5
          (new_sink\<lparr>upstream_cx_tx_bytes_buffered := 17825792, connection := Some 0,
                     connections_made := 1\<rparr>)) = [ConnClose 0 NoFlush, DeferredDelete (Some 0)]
   \<and> cx_overflow_stat (Tcp_onTimespanComplete ''test_timer'' 5
          (new_sink\<lparr>upstream_cx_tx_bytes_buffered := 17825792, connection := Some 0,
                     connections_made := 1\<rparr>)) = 1
   \<and> (\<exists>s1 s2 s3.
         flush_cycle True [Counter ''test_counter'' 1]
           (new_sink\<lparr>upstream_cx_tx_bytes_buffered := 17825792, connection := Some 0,
                      connections_made := 1\<rparr>) = Inr s1
         \<and> calls s1 = [ConnClose 0 NoFlush, DeferredDelete (Some 0)]
         \<and> buffer s1 = [] \<and> connection s1 = None \<and> cx_overflow_stat s1 = 1
         \<and> flush_cycle True [Counter ''test_counter'' 1] s1 = Inr s2
         \<and> calls s2 = calls s1 \<and> buffer s2 = [] \<and> connection s2 = None
         \<and> cx_overflow_stat s2 = 2
         \<and> flush_cycle True [Counter ''test_counter'' 1]
              (s2\<lparr>upstream_cx_tx_bytes_buffered := 15728640\<rparr>) = Inr s3
         \<and> calls s3 = calls s2 @
                      [TcpConnForCluster,
                       AddConnectionCallbacks 1, SetBufferStats 1, Connect 1,
                       ConnWrite 1 ''envoy.test_counter:1|c\<newline>'']
         \<and> buffer s3 = []
         \<and> cx_overflow_stat s3 = 2)"
proof -
  let ?s = "new_sink\<lparr>upstream_cx_tx_bytes_buffered := 17825792, connection := Some 0,
                   connections_made := 1\<rparr>"
  have h: "over_ceiling ?s" "current_slice_mem ?s = None" "buffer ?s = []"
    "\<forall>c \<in> set [Counter ''test_counter'' 1]. length (metric_name c) + 40 \<le> FlushSliceSizeBytes"
    "unat (15728640 :: 64 word) \<le> MaxBufferedStatsBytes" "cluster_has_connection ?s"
    by (simp_all add: evals)
  have v: "calls (snd (write ''envoy.test_counter:1|c\<newline>'' ?s))
             = [ConnClose 0 NoFlush, DeferredDelete (Some 0)]"
    "cx_overflow_stat ?s = 0" "connections_made ?s = 1"
    "wire_line (Counter ''test_counter'' 1) = ''envoy.test_counter:1|c\<newline>''"
    using h(1) by (simp_all add: calls_write evals)
  show ?thesis
    using overflow_closes_and_discards [OF h(1,2,3,4,4,4,5,6),
        of "''envoy.test_counter:1|c\<newline>''" "''test_timer''" 5 True]
    unfolding v by (simp add: evals)
qed

section \<open>The backpressure guard\<close>

lemma retrip:
  "over_ceiling s \<Longrightarrow>
   over_ceiling (((\<lambda>t. snd (write b t)) ^^ n) s)
   \<and> cx_overflow_stat (((\<lambda>t. snd (write b t)) ^^ n) s) = cx_overflow_stat s + of_nat n"
  by (induction n) (simp_all add: cx_overflow_stat_write)

text \<open>
  C4. The guard of \<open>write\<close> is \<open>buffered_bytes > ceiling\<close> and nothing else. With the
  counter at exactly 16 MiB the guard does not trip: the overflow counter keeps its value
  and the write goes its normal way (to the connection held, or to a new one asked from
  the cluster manager). With any value above, it trips: the overflow counter is one higher
  and nothing is written. A write leaves the buffered-bytes counter alone and the sink
  keeps no memory of a trip: \<open>n\<close> evaluations in a row over the ceiling trip \<open>n\<close> times,
  and as soon as the counter is at a value \<open>v\<close> not over the ceiling the next evaluation
  does not trip.
\<close>

theorem guard_is_strict_without_hysteresis:
  assumes "MaxBufferedStatsBytes < unat (upstream_cx_tx_bytes_buffered s)"
    and "unat v \<le> MaxBufferedStatsBytes"
  shows "over_ceiling s
       \<and> \<not> over_ceiling (s\<lparr>upstream_cx_tx_bytes_buffered := of_nat MaxBufferedStatsBytes\<rparr>)
       \<and> cx_overflow_stat
            (snd (write b (s\<lparr>upstream_cx_tx_bytes_buffered := of_nat MaxBufferedStatsBytes\<rparr>)))
           = cx_overflow_stat s
       \<and> calls (snd (write b (s\<lparr>upstream_cx_tx_bytes_buffered := of_nat MaxBufferedStatsBytes\<rparr>)))
           = calls s @
             (case connection s of
                Some c \<Rightarrow> [ConnWrite c b]
              | None \<Rightarrow>
                  if cluster_has_connection s
                  then [TcpConnForCluster,
                        AddConnectionCallbacks (connections_made s),
                        SetBufferStats (connections_made s),
                        Connect (connections_made s),
                        ConnWrite (connections_made s) b]
                  else [TcpConnForCluster])
       \<and> cx_overflow_stat (snd (write b s)) = cx_overflow_stat s + 1
       \<and> calls (snd (write b s)) =
             calls s @ (case connection s of
                          Some c \<Rightarrow> [ConnClose c NoFlush, DeferredDelete (Some c)]
                        | None \<Rightarrow> [])
       \<and> upstream_cx_tx_bytes_buffered (snd (write b s)) = upstream_cx_tx_bytes_buffered s
       \<and> cx_overflow_stat (((\<lambda>t. snd (write b t)) ^^ n) s) = cx_overflow_stat s + of_nat n
       \<and> cx_overflow_stat
            (snd (write b ((((\<lambda>t. snd (write b t)) ^^ n) s)\<lparr>upstream_cx_tx_bytes_buffered := v\<rparr>)))
           = cx_overflow_stat s + of_nat n"
proof -
  have o: "over_ceiling s" using assms(1) by (simp add: over_ceiling_def)
  let ?e = "s\<lparr>upstream_cx_tx_bytes_buffered := of_nat MaxBufferedStatsBytes\<rparr>"
  have e: "\<not> over_ceiling ?e"
    by (simp add: over_ceiling_def MaxBufferedStatsBytes_def)
  have e1: "cx_overflow_stat (snd (write b ?e)) = cx_overflow_stat s"
    using e by (simp add: cx_overflow_stat_write)
  have e2: "calls (snd (write b ?e)) = calls s @ write_calls b s"
    using e by (simp add: calls_write write_calls_def cong: option.case_cong)
  have t1: "cx_overflow_stat (snd (write b s)) = cx_overflow_stat s + 1"
    using o by (simp add: cx_overflow_stat_write)
  have t2: "calls (snd (write b s)) = calls s @ overflow_calls s"
    using o by (simp add: calls_write)
  have f: "upstream_cx_tx_bytes_buffered (snd (write b s)) = upstream_cx_tx_bytes_buffered s"
    using write_frame [of b s] by simp
  let ?t = "((\<lambda>t. snd (write b t)) ^^ n) s"
  have r: "cx_overflow_stat ?t = cx_overflow_stat s + of_nat n"
    using retrip [OF o, where b = b and n = n] by simp
  have u: "\<not> over_ceiling (?t\<lparr>upstream_cx_tx_bytes_buffered := v\<rparr>)"
    using assms(2) by (simp add: over_ceiling_def)
  have r2: "cx_overflow_stat (snd (write b (?t\<lparr>upstream_cx_tx_bytes_buffered := v\<rparr>)))
              = cx_overflow_stat s + of_nat n"
    using u r by (simp add: cx_overflow_stat_write)
  show ?thesis
    using o e e1 e2 t1 t2 f r r2 by (simp add: write_calls_def overflow_calls_def)
qed

text \<open>
  One byte over the ceiling, at the ceiling, and three evaluations in a row, on a sink that
  holds connection 0.
\<close>

theorem guard_at_and_above_the_ceiling:
  "over_ceiling (new_sink\<lparr>connection := Some 0, upstream_cx_tx_bytes_buffered := 16777217\<rparr>)
   \<and> \<not> over_ceiling (new_sink\<lparr>connection := Some 0, upstream_cx_tx_bytes_buffered := 16777216\<rparr>)
   \<and> cx_overflow_stat
        (snd (write ''x'' (new_sink\<lparr>connection := Some 0, upstream_cx_tx_bytes_buffered := 16777216\<rparr>)))
       = 0
   \<and> calls (snd (write ''x'' (new_sink\<lparr>connection := Some 0, upstream_cx_tx_bytes_buffered := 16777216\<rparr>)))
       = [ConnWrite 0 ''x'']
   \<and> cx_overflow_stat
        (snd (write ''x'' (new_sink\<lparr>connection := Some 0, upstream_cx_tx_bytes_buffered := 16777217\<rparr>)))
       = 1
   \<and> calls (snd (write ''x'' (new_sink\<lparr>connection := Some 0, upstream_cx_tx_bytes_buffered := 16777217\<rparr>)))
       = [ConnClose 0 NoFlush, DeferredDelete (Some 0)]
   \<and> cx_overflow_stat
        (((\<lambda>t. snd (write ''x'' t)) ^^ 3)
           (new_sink\<lparr>connection := Some 0, upstream_cx_tx_bytes_buffered := 16777217\<rparr>)) = 3
   \<and> cx_overflow_stat
        (snd (write ''x''
           ((((\<lambda>t. snd (write ''x'' t)) ^^ 3)
               (new_sink\<lparr>connection := Some 0, upstream_cx_tx_bytes_buffered := 16777217\<rparr>))
            \<lparr>upstream_cx_tx_bytes_buffered := 16777216\<rparr>))) = 3"
proof -
  let ?s = "new_sink\<lparr>connection := Some 0, upstream_cx_tx_bytes_buffered := 16777217\<rparr>"
  have h: "MaxBufferedStatsBytes < unat (upstream_cx_tx_bytes_buffered ?s)"
    "unat (16777216 :: 64 word) \<le> MaxBufferedStatsBytes"
    by (simp_all add: new_sink_def MaxBufferedStatsBytes_def)
  have m: "(of_nat MaxBufferedStatsBytes :: 64 word) = 16777216"
    by (simp add: MaxBufferedStatsBytes_def)
  show ?thesis
    using guard_is_strict_without_hysteresis [OF h, of "''x''" 3]
    unfolding m by (simp add: new_sink_def)
qed

section \<open>Close events\<close>

lemma onEvent_close:
  "events AND LocalClose \<noteq> 0 \<or> events AND RemoteClose \<noteq> 0 \<Longrightarrow>
   onEvent events s = s\<lparr>calls := calls s @ [DeferredDelete (connection s)], connection := None\<rparr>"
  by (simp add: onEvent_def deferredDelete_def)

text \<open>
  C8. An event with the local-close or the remote-close bit hands the connection to the
  dispatcher's deferred deletion (nothing is destroyed inside the callback) and leaves the
  sink without connection. The next \<open>endFlush()\<close> (of the cycle that was open when the
  event came, or of the next cycle), and likewise the next timer, therefore writes only
  after a fresh request to the cluster manager: unless the guard
  trips (then nothing is written at all), the request comes first, and if a connection is
  returned it is connected and then written to.
\<close>

theorem close_event_defers_delete_then_reconnects:
  assumes "events AND LocalClose \<noteq> 0 \<or> events AND RemoteClose \<noteq> 0"
    and "current_slice_mem s = None" and "buffer s = []"
    and "\<forall>c \<in> set cs. length (metric_name c) + 40 \<le> FlushSliceSizeBytes"
    and "cycle_open t"
  shows "onEvent events s
           = s\<lparr>calls := calls s @ [DeferredDelete (connection s)], connection := None\<rparr>
       \<and> (\<exists>t'. Tcp_endFlush dbg (onEvent events t) = Inr t'
             \<and> calls t' = calls t @ DeferredDelete (connection t) #
                  (if over_ceiling t then []
                   else TcpConnForCluster #
                     (if cluster_has_connection t
                      then [AddConnectionCallbacks (connections_made t),
                            SetBufferStats (connections_made t),
                            Connect (connections_made t),
                            ConnWrite (connections_made t) (pending t)]
                      else [])))
       \<and> (\<exists>s'. flush_cycle dbg cs (onEvent events s) = Inr s'
             \<and> calls s' = calls s @ DeferredDelete (connection s) #
                  (if over_ceiling s then []
                   else TcpConnForCluster #
                     (if cluster_has_connection s
                      then [AddConnectionCallbacks (connections_made s),
                            SetBufferStats (connections_made s),
                            Connect (connections_made s),
                            ConnWrite (connections_made s) (concat (map wire_line cs))]
                      else []))
             \<and> connection s' =
                  (if \<not> over_ceiling s \<and> cluster_has_connection s
                   then Some (connections_made s) else None))
       \<and> calls (Tcp_onTimespanComplete name ms (onEvent events s))
            = calls s @ DeferredDelete (connection s) #
                  (if over_ceiling s then []
                   else TcpConnForCluster #
                     (if cluster_has_connection s
                      then [AddConnectionCallbacks (connections_made s),
                            SetBufferStats (connections_made s),
                            Connect (connections_made s),
                            ConnWrite (connections_made s)
                              (''envoy.'' @ name @ '':'' @ fmt_i64 ms @ ''|ms\<newline>'')]
                      else []))"
proof -
  let ?s = "s\<lparr>calls := calls s @ [DeferredDelete (connection s)], connection := None\<rparr>"
  have e: "onEvent events s = ?s"
    using assms(1) by (rule onEvent_close)
  have o: "over_ceiling ?s = over_ceiling s"
    by (simp add: over_ceiling_def)
  from flush_cycle_fields [of ?s dbg cs] assms(2,3,4)
  obtain s' where s': "flush_cycle dbg cs ?s = Inr s'"
      "calls s' = calls ?s @ (if over_ceiling ?s then overflow_calls ?s
                              else write_calls (buffer ?s @ concat (map wire_line cs)) ?s)"
      "connection s' =
         (if over_ceiling ?s then None
          else case connection ?s of
                 Some c \<Rightarrow> Some c
               | None \<Rightarrow> if cluster_has_connection ?s then Some (connections_made ?s) else None)"
    by auto
  have c: "calls s' = calls s @ DeferredDelete (connection s) #
                  (if over_ceiling s then []
                   else TcpConnForCluster #
                     (if cluster_has_connection s
                      then [AddConnectionCallbacks (connections_made s),
                            SetBufferStats (connections_made s),
                            Connect (connections_made s),
                            ConnWrite (connections_made s) (concat (map wire_line cs))]
                      else []))"
    unfolding s'(2) o using assms(3) by (simp add: overflow_calls_def write_calls_def)
  have n: "connection s' =
                  (if \<not> over_ceiling s \<and> cluster_has_connection s
                   then Some (connections_made s) else None)"
    unfolding s'(3) o by simp
  have t: "calls (Tcp_onTimespanComplete name ms ?s)
            = calls s @ DeferredDelete (connection s) #
                  (if over_ceiling s then []
                   else TcpConnForCluster #
                     (if cluster_has_connection s
                      then [AddConnectionCallbacks (connections_made s),
                            SetBufferStats (connections_made s),
                            Connect (connections_made s),
                            ConnWrite (connections_made s)
                              (''envoy.'' @ name @ '':'' @ fmt_i64 ms @ ''|ms\<newline>'')]
                      else []))"
    unfolding Tcp_onTimespanComplete_def onTimespanComplete_fields o
    by (simp add: overflow_calls_def write_calls_def)
  let ?t = "t\<lparr>calls := calls t @ [DeferredDelete (connection t)], connection := None\<rparr>"
  have et: "onEvent events t = ?t"
    using assms(1) by (rule onEvent_close)
  have ot: "cycle_open ?t" "pending ?t = pending t" "over_ceiling ?t = over_ceiling t"
    using assms(5)
    by (simp_all add: cycle_open_def pending_def over_ceiling_def cong: option.case_cong)
  from endFlush_write_fields [OF ot(1), of dbg]
  obtain t' where t': "endFlush dbg True ?t = Inr t'"
      "calls t' = calls ?t @ (if over_ceiling ?t then overflow_calls ?t
                              else write_calls (pending ?t) ?t)"
    by auto
  have ct: "calls t' = calls t @ DeferredDelete (connection t) #
                  (if over_ceiling t then []
                   else TcpConnForCluster #
                     (if cluster_has_connection t
                      then [AddConnectionCallbacks (connections_made t),
                            SetBufferStats (connections_made t),
                            Connect (connections_made t),
                            ConnWrite (connections_made t) (pending t)]
                      else []))"
    unfolding t'(2) ot by (simp add: overflow_calls_def write_calls_def)
  have "\<exists>t'. Tcp_endFlush dbg (onEvent events t) = Inr t'
             \<and> calls t' = calls t @ DeferredDelete (connection t) #
                  (if over_ceiling t then []
                   else TcpConnForCluster #
                     (if cluster_has_connection t
                      then [AddConnectionCallbacks (connections_made t),
                            SetBufferStats (connections_made t),
                            Connect (connections_made t),
                            ConnWrite (connections_made t) (pending t)]
                      else []))"
    unfolding et Tcp_endFlush_def using t'(1) ct by blast
  then show ?thesis
    unfolding e using s'(1) c n t by blast
qed

text \<open>
  The test \<^verbatim>\<open>All\<close>: a remote close on a sink that holds connection 0, then the end of an
  open cycle with 12 bytes pending, respectively a whole cycle, respectively a timer.
\<close>

theorem remote_close_then_cycle:
  "onEvent RemoteClose (new_sink\<lparr>connection := Some 0, connections_made := 1\<rparr>)
     = new_sink\<lparr>connection := Some 0, connections_made := 1\<rparr>
         \<lparr>calls := calls (new_sink\<lparr>connection := Some 0, connections_made := 1\<rparr>)
                    @ [DeferredDelete (connection (new_sink\<lparr>connection := Some 0, connections_made := 1\<rparr>))],
          connection := None\<rparr>
   \<and> (\<exists>t'. Tcp_endFlush True
              (onEvent RemoteClose
                 (new_sink\<lparr>connection := Some 0, connections_made := 1,
                            current_buffer_slice := \<lparr>mem = ''envoy.a:1|c\<newline>....'', len = 16\<rparr>,
                            current_slice_mem := Some 12\<rparr>)) = Inr t'
         \<and> calls t' = [DeferredDelete (Some 0), TcpConnForCluster, AddConnectionCallbacks 1,
                       SetBufferStats 1, Connect 1, ConnWrite 1 ''envoy.a:1|c\<newline>''])
   \<and> (\<exists>s'. flush_cycle True [Counter ''test_counter'' 1]
              (onEvent RemoteClose (new_sink\<lparr>connection := Some 0, connections_made := 1\<rparr>)) = Inr s'
         \<and> calls s' = [DeferredDelete (Some 0), TcpConnForCluster, AddConnectionCallbacks 1,
                       SetBufferStats 1, Connect 1, ConnWrite 1 ''envoy.test_counter:1|c\<newline>'']
         \<and> connection s' = Some 1)
   \<and> calls (Tcp_onTimespanComplete ''test_timer'' 5
              (onEvent RemoteClose (new_sink\<lparr>connection := Some 0, connections_made := 1\<rparr>)))
        = [DeferredDelete (Some 0), TcpConnForCluster, AddConnectionCallbacks 1,
           SetBufferStats 1, Connect 1, ConnWrite 1 ''envoy.test_timer:5|ms\<newline>'']"
proof -
  let ?s = "new_sink\<lparr>connection := Some 0, connections_made := 1\<rparr>"
  have h: "RemoteClose AND LocalClose \<noteq> 0 \<or> RemoteClose AND RemoteClose \<noteq> 0"
    "current_slice_mem ?s = None" "buffer ?s = []"
    "\<forall>c \<in> set [Counter ''test_counter'' 1]. length (metric_name c) + 40 \<le> FlushSliceSizeBytes"
    by (simp_all add: RemoteClose_def LocalClose_def new_sink_def FlushSliceSizeBytes_def)
  let ?t = "new_sink\<lparr>connection := Some 0, connections_made := 1,
                       current_buffer_slice := \<lparr>mem = ''envoy.a:1|c\<newline>....'', len = 16\<rparr>,
                       current_slice_mem := Some 12\<rparr>"
  have k: "cycle_open ?t"
    by (simp add: cycle_open_def new_sink_def)
  show ?thesis
    using close_event_defers_delete_then_reconnects [OF h k, of True "''test_timer''" 5]
    by (simp add: evals fmt_i64_def onEvent_def deferredDelete_def RemoteClose_def LocalClose_def
        pending_def)
qed

section \<open>Timers\<close>

text \<open>
  C9. \<open>onTimespanComplete(name, ms)\<close> gives \<open>write\<close> a buffer of its own that holds
  exactly the line \<open>envoy.<name>:<ms>|ms\<close> and a newline, at once: the collaborator calls
  are those of one write of that buffer (to the connection held or newly obtained, unless
  the guard trips or no connection is obtainable). The shared buffer, the slice that is
  open, the pointer into it, and so the bytes pending in an open cycle, are unchanged.
\<close>

theorem timespan_bypasses_flush_buffer:
  "Tcp_onTimespanComplete name ms s
     = snd (write (''envoy.'' @ name @ '':'' @ fmt_i64 ms @ ''|ms\<newline>'') s)
   \<and> calls (Tcp_onTimespanComplete name ms s)
       = calls s @
         (if over_ceiling s
          then (case connection s of
                  Some c \<Rightarrow> [ConnClose c NoFlush, DeferredDelete (Some c)]
                | None \<Rightarrow> [])
          else (case connection s of
                  Some c \<Rightarrow> [ConnWrite c (''envoy.'' @ name @ '':'' @ fmt_i64 ms @ ''|ms\<newline>'')]
                | None \<Rightarrow>
                    if cluster_has_connection s
                    then [TcpConnForCluster,
                          AddConnectionCallbacks (connections_made s),
                          SetBufferStats (connections_made s),
                          Connect (connections_made s),
                          ConnWrite (connections_made s)
                            (''envoy.'' @ name @ '':'' @ fmt_i64 ms @ ''|ms\<newline>'')]
                    else [TcpConnForCluster]))
   \<and> buffer (Tcp_onTimespanComplete name ms s) = buffer s
   \<and> current_buffer_slice (Tcp_onTimespanComplete name ms s) = current_buffer_slice s
   \<and> current_slice_mem (Tcp_onTimespanComplete name ms s) = current_slice_mem s
   \<and> pending (Tcp_onTimespanComplete name ms s) = pending s
   \<and> cycle_open (Tcp_onTimespanComplete name ms s) = cycle_open s"
proof -
  let ?line = "''envoy.'' @ name @ '':'' @ fmt_i64 ms @ ''|ms\<newline>''"
  have w: "Tcp_onTimespanComplete name ms s = snd (write ?line s)"
    by (simp add: Tcp_onTimespanComplete_def onTimespanComplete_def)
  have f: "buffer (snd (write b s)) = buffer s"
    "current_buffer_slice (snd (write b s)) = current_buffer_slice s"
    "current_slice_mem (snd (write b s)) = current_slice_mem s" for b
    using write_frame [of b s] by simp_all
  have p: "pending (snd (write b s)) = pending s"
    "cycle_open (snd (write b s)) = cycle_open s" for b
    by (simp_all add: pending_def cycle_open_def f cong: option.case_cong)
  have c: "calls (snd (write ?line s)) =
             calls s @ (if over_ceiling s then overflow_calls s else write_calls ?line s)"
    by (rule calls_write)
  show ?thesis
    unfolding w using f p c
    by (simp add: overflow_calls_def write_calls_def cong: option.case_cong)
qed

lemma timespan_test_timer:
  "calls (Tcp_onTimespanComplete ''test_timer'' 5 (new_sink\<lparr>connection := Some 0\<rparr>))
     = [ConnWrite 0 ''envoy.test_timer:5|ms\<newline>'']"
  by (simp add: Tcp_onTimespanComplete_def onTimespanComplete_fields evals fmt_i64_def)

section \<open>UDP sink: one datagram per call\<close>

lemma sent_send: "sent (send message w) = sent w @ [message]"
  by (simp add: send_def)

text \<open>
  C5 (as the code has it). Each of \<open>flushCounter\<close>, \<open>flushGauge\<close> and
  \<open>onTimespanComplete\<close> of the UDP sink makes exactly one \<^verbatim>\<open>::send\<close> call, so one
  datagram, and nothing is batched across calls. The payload is
  \<open>envoy.<name>:<value>|<type>\<close> with type \<open>c\<close>, \<open>g\<close> or \<open>ms\<close> and \<^emph>\<open>no\<close> trailing newline;
  counter and gauge values are unsigned decimals, the timer value is the signed decimal
  of the millisecond count.
\<close>

theorem udp_one_datagram_per_call:
  "sent (Udp_flushCounter name delta w) = sent w @ [''envoy.'' @ name @ '':'' @ fmt_u64 delta @ ''|c'']
   \<and> sent (Udp_flushGauge name v w) = sent w @ [''envoy.'' @ name @ '':'' @ fmt_u64 v @ ''|g'']
   \<and> sent (Udp_onTimespanComplete name ms w) = sent w @ [''envoy.'' @ name @ '':'' @ fmt_i64 ms @ ''|ms'']"
  by (simp add: Udp_flushCounter_def Udp_flushGauge_def Udp_onTimespanComplete_def
      writeCounter_def writeGauge_def writeTimer_def sent_send)

text \<open>
  C5 as the spec states it asks for a newline-terminated payload. On a writer that has
  sent nothing, \<open>flushCounter("x", 1)\<close> sends the 11 bytes \<open>envoy.x:1|c\<close>, not the 12 bytes
  of the newline-terminated line.
\<close>

theorem udp_payload_not_newline_terminated:
  "sent (Udp_flushCounter ''x'' 1 \<lparr>fd = 3, sent = []\<rparr>) = [''envoy.x:1|c'']
   \<and> sent (Udp_flushCounter ''x'' 1 \<lparr>fd = 3, sent = []\<rparr>) \<noteq> [''envoy.x:1|c\<newline>'']"
  by (simp add: Udp_flushCounter_def writeCounter_def send_def fmt_u64_def dec.simps
      digit_char_def)

section \<open>Histograms are timers\<close>

text \<open>
  C6. On the UDP sink and on the TCP sink, \<open>onHistogramComplete(name, value)\<close> is
  \<open>onTimespanComplete(name, milliseconds(value))\<close>: the resulting writer, respectively
  sink, is the same, and with it every send and every write.
\<close>

theorem histogram_is_timespan:
  "Udp_onHistogramComplete name v w = Udp_onTimespanComplete name (milliseconds v) w
   \<and> sent (Udp_onHistogramComplete name v w) = sent (Udp_onTimespanComplete name (milliseconds v) w)
   \<and> Tcp_onHistogramComplete name v s = Tcp_onTimespanComplete name (milliseconds v) s
   \<and> calls (Tcp_onHistogramComplete name v s) = calls (Tcp_onTimespanComplete name (milliseconds v) s)"
  by (simp add: Udp_onHistogramComplete_def Tcp_onHistogramComplete_def)

end
